theory Spec2Isabelle
  imports Complex_Main "HOL-Library.Char_ord" "HOL-Library.List_Lexorder" "HOL-Library.Log_Nat"
begin

section \<open>Strings\<close>

text \<open>
  A Python \<open>str\<close> is modelled as a \<open>string\<close>; one \<open>char\<close> stands for one code point
  below 256. \<open>term in s\<close> is substring containment, \<open>s.lower()\<close> maps the upper-case
  letters of that range to lower case.
\<close>

fun startswith :: "string \<Rightarrow> string \<Rightarrow> bool" where
  "startswith s [] = True"
| "startswith [] (p # ps) = False"
| "startswith (c # cs) (p # ps) = (c = p \<and> startswith cs ps)"

fun str_in :: "string \<Rightarrow> string \<Rightarrow> bool" where
  "str_in t [] = (t = [])"
| "str_in t (c # cs) = (startswith (c # cs) t \<or> str_in t cs)"

definition lower_char :: "char \<Rightarrow> char" where
  "lower_char c =
     (let n = (of_char c :: nat)
      in if (65 \<le> n \<and> n \<le> 90) \<or> (192 \<le> n \<and> n \<le> 222 \<and> n \<noteq> 215)
         then char_of (n + 32) else c)"

definition lower :: "string \<Rightarrow> string" where
  "lower s = map lower_char s"

section \<open>Classifier\<close>

text \<open>\<open>any(term in url_lower for term in terms)\<close>\<close>

definition any_term_in :: "string list \<Rightarrow> string \<Rightarrow> bool" where
  "any_term_in terms u = list_ex (\<lambda>t. str_in t u) terms"

text \<open>\<open>get_pattern_category\<close>: the if/elif chain of the source, in its order.\<close>

definition get_pattern_category :: "string \<Rightarrow> string" where
  "get_pattern_category url =
     (let url_lower = lower url in
      if any_term_in [''/cart/'', ''cart/add'', ''cart/update'', ''cart/remove'',
                      ''/basket/'', ''/bag/''] url_lower
      then ''Shopping Cart''
      else if any_term_in [''paypal'', ''stripe'', ''amazon-pay'', ''apple-pay'', ''google-pay'',
                           ''klarna'', ''afterpay'', ''affirm'', ''/payment/'', ''/pay/'',
                           ''/billing/'', ''credit-card''] url_lower
      then ''Payment Processing''
      else if any_term_in [''/order/'', ''/orders/'', ''order/success'', ''order/complete'',
                           ''checkout/success'', ''thank-you'', ''thankyou'', ''receipt'',
                           ''confirmation''] url_lower
      then ''Order Completion''
      else if any_term_in [''/checkout/'', ''checkout/'', ''onepage'', ''guest-checkout''] url_lower
      then ''Checkout Process''
      else ''Other Checkout'')"

text \<open>\<open>categorize_checkout_stage\<close>: the funnel-stage chain.\<close>

definition categorize_checkout_stage :: "string \<Rightarrow> string" where
  "categorize_checkout_stage url =
     (let url_lower = lower url in
      if any_term_in [''cart'', ''basket'', ''bag'', ''shopping-cart''] url_lower
      then ''Cart Operations''
      else if any_term_in [''checkout/start'', ''checkout/begin'', ''checkout/init''] url_lower
      then ''Checkout Initiation''
      else if any_term_in [''shipping'', ''delivery'', ''address''] url_lower
      then ''Shipping/Address''
      else if any_term_in [''payment'', ''pay'', ''billing'', ''paypal'', ''stripe'', ''credit'']
                 url_lower
      then ''Payment Processing''
      else if any_term_in [''success'', ''complete'', ''confirmation'', ''receipt'', ''thank'']
                 url_lower
      then ''Order Completion''
      else if any_term_in [''login'', ''register'', ''account'', ''signup''] url_lower
      then ''Account/Authentication''
      else if str_in ''checkout'' url_lower
      then ''General Checkout''
      else ''Other E-commerce'')"

subsection \<open>The chains as ordered lists of (terms, label) pairs\<close>

text \<open>
  The specification describes both classifiers as an ordered chain of substring tests in
  which the first matching category wins. \<open>first_match\<close> is that description; the two
  lists give the tests in the documented order.
\<close>

fun first_match :: "(string list \<times> string) list \<Rightarrow> string \<Rightarrow> string \<Rightarrow> string" where
  "first_match [] fallback u = fallback"
| "first_match ((terms, label) # rest) fallback u =
     (if any_term_in terms u then label else first_match rest fallback u)"

definition funnel_stage_chain :: "(string list \<times> string) list" where
  "funnel_stage_chain =
     [([''cart'', ''basket'', ''bag'', ''shopping-cart''], ''Cart Operations''),
      ([''checkout/start'', ''checkout/begin'', ''checkout/init''], ''Checkout Initiation''),
      ([''shipping'', ''delivery'', ''address''], ''Shipping/Address''),
      ([''payment'', ''pay'', ''billing'', ''paypal'', ''stripe'', ''credit''],
       ''Payment Processing''),
      ([''success'', ''complete'', ''confirmation'', ''receipt'', ''thank''],
       ''Order Completion''),
      ([''login'', ''register'', ''account'', ''signup''], ''Account/Authentication''),
      ([''checkout''], ''General Checkout'')]"

definition pattern_category_chain :: "(string list \<times> string) list" where
  "pattern_category_chain =
     [([''/cart/'', ''cart/add'', ''cart/update'', ''cart/remove'', ''/basket/'', ''/bag/''],
       ''Shopping Cart''),
      ([''paypal'', ''stripe'', ''amazon-pay'', ''apple-pay'', ''google-pay'', ''klarna'',
        ''afterpay'', ''affirm'', ''/payment/'', ''/pay/'', ''/billing/'', ''credit-card''],
       ''Payment Processing''),
      ([''/order/'', ''/orders/'', ''order/success'', ''order/complete'', ''checkout/success'',
        ''thank-you'', ''thankyou'', ''receipt'', ''confirmation''], ''Order Completion''),
      ([''/checkout/'', ''checkout/'', ''onepage'', ''guest-checkout''], ''Checkout Process'')]"

section \<open>Python values and built-ins used by the parser\<close>

text \<open>
  An exception is a value of \<open>py_error\<close>; a computation that can raise returns
  \<open>py_error + 'a\<close>, with \<open>Inl\<close> for the raised exception.
\<close>

datatype py_error =
  ValueError | IndexError | AttributeError | ZeroDivisionError | OverflowError

definition e_bind :: "py_error + 'a \<Rightarrow> ('a \<Rightarrow> py_error + 'b) \<Rightarrow> py_error + 'b" where
  "e_bind m f = (case m of Inl e \<Rightarrow> Inl e | Inr v \<Rightarrow> f v)"

text \<open>
  A Python \<open>float\<close> is a finite value, held as a rational, or one of the two infinities or
  NaN, which \<open>float()\<close> accepts as text; there is no signed zero. The latencies of a log
  line are idealised: \<open>py_float\<close> and \<open>pf_add\<close> read and add them exactly, without rounding
  and without overflow to infinity. The error rates of the daily trend, which the source
  compares with one another, are rounded to double precision after every operation
  (\<open>dbl_round\<close> below).
\<close>

datatype pyfloat = Fin rat | PInf | NInf | NaN

fun pf_add :: "pyfloat \<Rightarrow> pyfloat \<Rightarrow> pyfloat" where
  "pf_add (Fin a) (Fin b) = Fin (a + b)"
| "pf_add NaN y = NaN"
| "pf_add x NaN = NaN"
| "pf_add PInf NInf = NaN"
| "pf_add NInf PInf = NaN"
| "pf_add PInf y = PInf"
| "pf_add x PInf = PInf"
| "pf_add NInf y = NInf"
| "pf_add x NInf = NInf"

text \<open>\<open>pf_less x y\<close> is \<open>x < y\<close>; every comparison with NaN is false.\<close>

fun pf_less :: "pyfloat \<Rightarrow> pyfloat \<Rightarrow> bool" where
  "pf_less (Fin a) (Fin b) = (a < b)"
| "pf_less NaN y = False"
| "pf_less x NaN = False"
| "pf_less x NInf = False"
| "pf_less PInf y = False"
| "pf_less NInf y = True"
| "pf_less x PInf = True"

definition dquote :: char where
  "dquote = CHR 0x22"

text \<open>
  White space as \<open>\s\<close>, \<open>str.strip()\<close>, \<open>int()\<close> and \<open>float()\<close> see it, among the code
  points below 256.
\<close>

definition is_space :: "char \<Rightarrow> bool" where
  "is_space c = (c \<in> set [CHR 0x09, CHR 0x0A, CHR 0x0B, CHR 0x0C, CHR 0x0D, CHR 0x1C, CHR 0x1D,
                          CHR 0x1E, CHR 0x1F, CHR 0x20, CHR 0x85, CHR 0xA0])"

definition is_digit :: "char \<Rightarrow> bool" where
  "is_digit c = (c \<in> set ''0123456789'')"

definition strip :: "string \<Rightarrow> string" where
  "strip s = rev (dropWhile is_space (rev (dropWhile is_space s)))"

text \<open>\<open>s.strip(chars)\<close> with a one-character argument.\<close>

definition strip_char :: "char \<Rightarrow> string \<Rightarrow> string" where
  "strip_char ch s = rev (dropWhile (\<lambda>c. c = ch) (rev (dropWhile (\<lambda>c. c = ch) s)))"

text \<open>\<open>s.split(sep)\<close> with a one-character separator: never empty, empty pieces kept.\<close>

fun split_on :: "char \<Rightarrow> string \<Rightarrow> string list" where
  "split_on sep [] = [[]]"
| "split_on sep (c # cs) =
     (if c = sep then [] # split_on sep cs
      else (case split_on sep cs of w # ws \<Rightarrow> (c # w) # ws | [] \<Rightarrow> [[c]]))"

text \<open>\<open>xs[i]\<close> for \<open>i \<ge> 0\<close>.\<close>

definition py_index :: "'a list \<Rightarrow> nat \<Rightarrow> py_error + 'a" where
  "py_index xs i = (if i < length xs then Inr (xs ! i) else Inl IndexError)"

subsection \<open>\<open>int()\<close> and \<open>float()\<close> on text\<close>

text \<open>
  The grammar of the language reference, for base 10:
  \<^verbatim>\<open>digitpart ::= digit (["_"] digit)*\<close>,
  \<^verbatim>\<open>number ::= [digitpart] "." digitpart | digitpart ["."]\<close>,
  \<^verbatim>\<open>exponent ::= ("e" | "E") [sign] digitpart\<close>,
  with an optional sign in front and surrounding white space stripped; \<open>float()\<close> also
  takes \<open>inf\<close>, \<open>infinity\<close> and \<open>nan\<close> in any case. Anything else raises ValueError.
  The digits are the ten ASCII digits, the only decimal digits below code point 256; the
  bound that recent interpreters put on the number of digits \<open>int()\<close> converts is
  not modelled (beyond it \<open>int()\<close> raises ValueError as well).
\<close>

definition digit_val :: "char \<Rightarrow> nat" where
  "digit_val c = of_char c - 48"

definition digits_val :: "string \<Rightarrow> nat" where
  "digits_val ds = foldl (\<lambda>a c. 10 * a + digit_val c) 0 ds"

fun digitpart_rest :: "string \<Rightarrow> string \<times> string" where
  "digitpart_rest [] = ([], [])"
| "digitpart_rest [c] = (if is_digit c then ([c], []) else ([], [c]))"
| "digitpart_rest (c # d # r) =
     (if is_digit c then (case digitpart_rest (d # r) of (ds, r') \<Rightarrow> (c # ds, r'))
      else if c = CHR ''_'' \<and> is_digit d then (case digitpart_rest r of (ds, r') \<Rightarrow> (d # ds, r'))
      else ([], c # d # r))"

definition digitpart :: "string \<Rightarrow> (string \<times> string) option" where
  "digitpart s =
     (case s of
        [] \<Rightarrow> None
      | c # cs \<Rightarrow> if is_digit c then (case digitpart_rest cs of (ds, r) \<Rightarrow> Some (c # ds, r))
                  else None)"

definition split_sign :: "string \<Rightarrow> bool \<times> string" where
  "split_sign s =
     (case s of
        [] \<Rightarrow> (False, [])
      | c # cs \<Rightarrow> if c = CHR ''-'' then (True, cs)
                  else if c = CHR ''+'' then (False, cs) else (False, s))"

definition py_int :: "string \<Rightarrow> py_error + int" where
  "py_int s =
     (case split_sign (strip s) of
        (neg, body) \<Rightarrow>
          (case digitpart body of
             None \<Rightarrow> Inl ValueError
           | Some (ds, r) \<Rightarrow>
               if r = [] then Inr (if neg then - int (digits_val ds) else int (digits_val ds))
               else Inl ValueError))"

definition mantissa :: "string \<Rightarrow> ((string \<times> string) \<times> string) option" where
  "mantissa s =
     (case digitpart s of
        Some (ip, r) \<Rightarrow>
          (case r of
             [] \<Rightarrow> Some ((ip, []), [])
           | c # r' \<Rightarrow>
               if c = CHR ''.'' then
                 (case digitpart r' of
                    Some (fp, r'') \<Rightarrow> Some ((ip, fp), r'')
                  | None \<Rightarrow> Some ((ip, []), r'))
               else Some ((ip, []), r))
      | None \<Rightarrow>
          (case s of
             [] \<Rightarrow> None
           | c # r' \<Rightarrow>
               if c = CHR ''.'' then
                 (case digitpart r' of
                    Some (fp, r'') \<Rightarrow> Some (([], fp), r'')
                  | None \<Rightarrow> None)
               else None))"

definition exponent :: "string \<Rightarrow> int option" where
  "exponent r =
     (case r of
        [] \<Rightarrow> Some 0
      | c # r' \<Rightarrow>
          if c = CHR ''e'' \<or> c = CHR ''E'' then
            (case split_sign r' of
               (neg, b) \<Rightarrow>
                 (case digitpart b of
                    None \<Rightarrow> None
                  | Some (ds, rest) \<Rightarrow>
                      if rest = [] then Some (if neg then - int (digits_val ds)
                                              else int (digits_val ds))
                      else None))
          else None)"

definition scale10 :: "rat \<Rightarrow> int \<Rightarrow> rat" where
  "scale10 q e = (if 0 \<le> e then q * 10 ^ nat e else q / 10 ^ nat (- e))"

definition floatnumber :: "string \<Rightarrow> rat option" where
  "floatnumber s =
     (case mantissa s of
        None \<Rightarrow> None
      | Some ((ip, fp), r) \<Rightarrow>
          (case exponent r of
             None \<Rightarrow> None
           | Some e \<Rightarrow>
               Some (scale10 (of_nat (digits_val ip)
                              + of_nat (digits_val fp) / 10 ^ length fp) e)))"

definition py_float :: "string \<Rightarrow> py_error + pyfloat" where
  "py_float s =
     (case split_sign (strip s) of
        (neg, body) \<Rightarrow>
          if lower body = ''inf'' \<or> lower body = ''infinity''
          then Inr (if neg then NInf else PInf)
          else if lower body = ''nan'' then Inr NaN
          else (case floatnumber body of
                  None \<Rightarrow> Inl ValueError
                | Some q \<Rightarrow> Inr (Fin (if neg then - q else q))))"

section \<open>Line parser\<close>

text \<open>
  The pattern of \<open>parse_log_line\<close> is twelve times \<^verbatim>\<open>(\S+)\s+\<close>, then
  \<^verbatim>\<open>"([^"]*)"\s+"([^"]*)"\s+(\S+)\s+(\S+)\<close>, matched from the start of the line by
  \<open>re.match\<close> with nothing required after the last group. Every repetition in it is
  followed by a character of the complementary class (or by nothing), so the greedy match
  is the only one: each group is a maximal run, and the matcher below needs no
  backtracking.
\<close>

definition re_nonspace :: "string \<Rightarrow> (string \<times> string) option" where
  "re_nonspace s =
     (if takeWhile (\<lambda>c. \<not> is_space c) s = [] then None
      else Some (takeWhile (\<lambda>c. \<not> is_space c) s, dropWhile (\<lambda>c. \<not> is_space c) s))"

definition re_spaces :: "string \<Rightarrow> string option" where
  "re_spaces s = (if takeWhile is_space s = [] then None else Some (dropWhile is_space s))"

definition re_quoted :: "string \<Rightarrow> (string \<times> string) option" where
  "re_quoted s =
     (case s of
        [] \<Rightarrow> None
      | c # r \<Rightarrow>
          if c \<noteq> dquote then None
          else (case dropWhile (\<lambda>c. c \<noteq> dquote) r of
                  [] \<Rightarrow> None
                | q # r' \<Rightarrow> Some (takeWhile (\<lambda>c. c \<noteq> dquote) r, r')))"

text \<open>\<open>re_fields k\<close>: \<open>k\<close> times \<^verbatim>\<open>(\S+)\s+\<close>.\<close>

fun re_fields :: "nat \<Rightarrow> string \<Rightarrow> (string list \<times> string) option" where
  "re_fields 0 s = Some ([], s)"
| "re_fields (Suc k) s =
     (case re_nonspace s of
        None \<Rightarrow> None
      | Some (g, r) \<Rightarrow>
          (case re_spaces r of
             None \<Rightarrow> None
           | Some r' \<Rightarrow>
               (case re_fields k r' of
                  None \<Rightarrow> None
                | Some (gs, r'') \<Rightarrow> Some (g # gs, r''))))"

text \<open>\<open>re.match(pattern, line)\<close> and \<open>match.groups()\<close>: the sixteen groups, or no match.\<close>

definition re_match_line :: "string \<Rightarrow> string list option" where
  "re_match_line line =
     (case re_fields 12 line of None \<Rightarrow> None | Some (gs, r1) \<Rightarrow>
     (case re_quoted r1 of None \<Rightarrow> None | Some (g12, r2) \<Rightarrow>
     (case re_spaces r2 of None \<Rightarrow> None | Some r3 \<Rightarrow>
     (case re_quoted r3 of None \<Rightarrow> None | Some (g13, r4) \<Rightarrow>
     (case re_spaces r4 of None \<Rightarrow> None | Some r5 \<Rightarrow>
     (case re_nonspace r5 of None \<Rightarrow> None | Some (g14, r6) \<Rightarrow>
     (case re_spaces r6 of None \<Rightarrow> None | Some r7 \<Rightarrow>
     (case re_nonspace r7 of None \<Rightarrow> None | Some (g15, r8) \<Rightarrow>
        Some (gs @ [g12, g13, g14, g15])))))))))"

record log_entry =
  timestamp :: string
  client_ip :: string
  target_ip :: "string option"
  request_processing_time :: pyfloat
  backend_processing_time :: pyfloat
  response_processing_time :: pyfloat
  elb_status_code :: "int option"
  backend_status_code :: "int option"
  received_bytes :: int
  sent_bytes :: int
  request :: string
  user_agent :: string
  ssl_cipher :: string
  ssl_protocol :: string

text \<open>
  The dictionary display of \<open>parse_log_line\<close>, its items evaluated in the order written.
  The literal \<open>-1\<close> of a latency becomes the number \<open>-1\<close>, \<open>-\<close> becomes \<open>None\<close> for a host
  or a status, \<open>0\<close> for a byte count and the empty string for the cipher and protocol.
\<close>

definition host_of :: "string \<Rightarrow> py_error + string" where
  "host_of g = py_index (split_on CHR '':'' g) 0"

definition latency_of :: "string \<Rightarrow> py_error + pyfloat" where
  "latency_of g = (if g \<noteq> ''-1'' then py_float g else Inr (Fin (- 1)))"

definition status_of :: "string \<Rightarrow> py_error + int option" where
  "status_of g = (if g \<noteq> ''-'' then e_bind (py_int g) (\<lambda>n. Inr (Some n)) else Inr None)"

definition bytes_of :: "string \<Rightarrow> py_error + int" where
  "bytes_of g = (if g \<noteq> ''-'' then py_int g else Inr 0)"

definition build_entry :: "string list \<Rightarrow> py_error + log_entry" where
  "build_entry groups =
     e_bind (py_index groups 1) (\<lambda>g1.
     e_bind (e_bind (py_index groups 3) host_of) (\<lambda>client.
     e_bind (e_bind (py_index groups 4)
               (\<lambda>g4. if g4 \<noteq> ''-'' then e_bind (host_of g4) (\<lambda>h. Inr (Some h)) else Inr None))
       (\<lambda>target.
     e_bind (e_bind (py_index groups 5) latency_of) (\<lambda>t_request.
     e_bind (e_bind (py_index groups 6) latency_of) (\<lambda>t_backend.
     e_bind (e_bind (py_index groups 7) latency_of) (\<lambda>t_response.
     e_bind (e_bind (py_index groups 8) status_of) (\<lambda>elb_status.
     e_bind (e_bind (py_index groups 9) status_of) (\<lambda>backend_status.
     e_bind (e_bind (py_index groups 10) bytes_of) (\<lambda>received.
     e_bind (e_bind (py_index groups 11) bytes_of) (\<lambda>sent.
     e_bind (py_index groups 12) (\<lambda>g12.
     e_bind (py_index groups 13) (\<lambda>g13.
     e_bind (py_index groups 14) (\<lambda>g14.
     e_bind (py_index groups 15) (\<lambda>g15.
       Inr \<lparr>timestamp = g1,
            client_ip = client,
            target_ip = target,
            request_processing_time = t_request,
            backend_processing_time = t_backend,
            response_processing_time = t_response,
            elb_status_code = elb_status,
            backend_status_code = backend_status,
            received_bytes = received,
            sent_bytes = sent,
            request = g12,
            user_agent = g13,
            ssl_cipher = (if g14 \<noteq> ''-'' then g14 else []),
            ssl_protocol = (if g15 \<noteq> ''-'' then g15 else [])\<rparr>))))))))))))))"

text \<open>The body of the \<open>try\<close> block: \<open>None\<close> is the function's failure marker.\<close>

definition parse_try :: "string \<Rightarrow> py_error + log_entry option" where
  "parse_try line =
     (case re_match_line line of
        None \<Rightarrow> Inr None
      | Some groups \<Rightarrow>
          if length groups < 16 then Inr None
          else e_bind (build_entry groups) (\<lambda>entry. Inr (Some entry)))"

text \<open>
  \<open>except (ValueError, IndexError, AttributeError): return None\<close>; any other exception
  leaves the function.
\<close>

definition parse_log_line :: "string \<Rightarrow> py_error + log_entry option" where
  "parse_log_line line =
     (case parse_try line of
        Inr r \<Rightarrow> Inr r
      | Inl e \<Rightarrow> if e = ValueError \<or> e = IndexError \<or> e = AttributeError then Inr None
                 else Inl e)"

section \<open>Relevance test and traffic source\<close>

text \<open>
  The three regular expressions are alternations of literal fragments (none has a regex
  metacharacter), searched case-insensitively: a match is a fragment that occurs in the
  lower-cased text.
\<close>

definition checkout_patterns :: "string list" where
  "checkout_patterns =
     [''/cart/'', ''/shopping-cart/'', ''/basket/'', ''/bag/'', ''checkout/cart'',
      ''cart/add'', ''cart/update'', ''cart/remove'',
      ''/checkout/'', ''checkout/'', ''onepage'', ''guest-checkout'', ''checkout/onepage'',
      ''checkout/success'', ''checkout/complete'', ''checkout/review'', ''checkout/billing'',
      ''checkout/shipping'', ''checkout/payment'',
      ''/payment/'', ''/pay/'', ''paypal'', ''stripe'', ''amazon-pay'', ''amazonpay'',
      ''apple-pay'', ''applepay'', ''google-pay'', ''googlepay'', ''klarna'', ''afterpay'',
      ''affirm'', ''/billing/'', ''credit-card'', ''creditcard'',
      ''/order/'', ''/orders/'', ''order/success'', ''order/complete'', ''order/confirmation'',
      ''order-confirmation'', ''checkout/success'', ''thank-you'', ''thankyou'',
      ''receipt'', ''order-receipt'']"

definition bot_patterns :: "string list" where
  "bot_patterns =
     [''bot'', ''crawler'', ''spider'', ''scraper'', ''curl'', ''wget'', ''python'', ''java'',
      ''http_request'', ''postman'', ''insomnia'', ''user-agent'', ''test'', ''monitor'',
      ''uptime'', ''pingdom'', ''datadog'', ''newrelic'', ''googlebot'', ''bingbot'',
      ''facebookexternalhit'', ''twitterbot'', ''linkedinbot'', ''whatsapp'', ''telegram'']"

definition mobile_patterns :: "string list" where
  "mobile_patterns = [''mobile'', ''android'', ''iphone'', ''ipad'', ''tablet'', ''phone'']"

definition is_checkout_related :: "string \<Rightarrow> bool" where
  "is_checkout_related url = any_term_in checkout_patterns (lower url)"

definition is_bot_traffic :: "string \<Rightarrow> bool" where
  "is_bot_traffic ua = any_term_in bot_patterns (lower ua)"

definition is_mobile_traffic :: "string \<Rightarrow> bool" where
  "is_mobile_traffic ua = any_term_in mobile_patterns (lower ua)"

section \<open>Ingestion: the loop of \<open>analyze_logs\<close>\<close>

text \<open>
  A checkout request is the parsed entry with the keys \<open>analyze_logs\<close> adds to it. The
  entry reaches that point only with a backend status that is a nonzero integer (the
  truth test on \<open>log_entry.get('backend_status_code')\<close>), which \<open>status_code\<close> holds.
\<close>

record checkout_entry =
  entry :: log_entry
  status_code :: int
  url :: string
  checkout_stage :: string
  pattern_category :: string
  is_bot :: bool
  is_mobile :: bool

record analyzer =
  all_requests :: "log_entry list"
  checkout_requests :: "checkout_entry list"
  checkout_errors :: "checkout_entry list"
  total_lines :: nat
  parsed_lines :: nat

definition initial_analyzer :: analyzer where
  "initial_analyzer =
     \<lparr>all_requests = [], checkout_requests = [], checkout_errors = [],
      total_lines = 0, parsed_lines = 0\<rparr>"

text \<open>
  The checkout branch for an entry already counted among all requests: the URL is the second
  piece of the request line split at single spaces, if there is one.
\<close>

definition classify :: "analyzer \<Rightarrow> log_entry \<Rightarrow> int \<Rightarrow> py_error + analyzer" where
  "classify st log_entry status =
     (let request_parts = split_on CHR '' '' (request log_entry) in
      if 2 \<le> length request_parts then
        e_bind (py_index request_parts 1) (\<lambda>part.
          let u = strip_char dquote part in
          if is_checkout_related u then
            let ce = \<lparr>entry = log_entry, status_code = status, url = u,
                      checkout_stage = categorize_checkout_stage u,
                      pattern_category = get_pattern_category u,
                      is_bot = is_bot_traffic (user_agent log_entry),
                      is_mobile = is_mobile_traffic (user_agent log_entry)\<rparr>;
                st' = st\<lparr>checkout_requests := checkout_requests st @ [ce]\<rparr>
            in if 500 \<le> status
               then Inr (st'\<lparr>checkout_errors := checkout_errors st' @ [ce]\<rparr>)
               else Inr st'
          else Inr st)
      else Inr st)"

text \<open>One iteration of the inner loop, for one line of a log file.\<close>

definition process_line :: "analyzer \<Rightarrow> string \<Rightarrow> py_error + analyzer" where
  "process_line st line =
     (let st1 = st\<lparr>total_lines := total_lines st + 1\<rparr> in
      e_bind (parse_log_line line) (\<lambda>parsed.
        case parsed of
          None \<Rightarrow> Inr st1
        | Some log_entry \<Rightarrow>
            (case backend_status_code log_entry of
               None \<Rightarrow> Inr st1
             | Some status \<Rightarrow>
                 if status = 0 then Inr st1
                 else classify
                        (st1\<lparr>parsed_lines := parsed_lines st1 + 1,
                             all_requests := all_requests st1 @ [log_entry]\<rparr>)
                        log_entry status)))"

text \<open>The two nested loops, over the lines of all files in the order they are read.\<close>

fun process_lines :: "analyzer \<Rightarrow> string list \<Rightarrow> py_error + analyzer" where
  "process_lines st [] = Inr st"
| "process_lines st (line # rest) = e_bind (process_line st line) (\<lambda>st'. process_lines st' rest)"

definition analyze_logs :: "string list \<Rightarrow> py_error + analyzer" where
  "analyze_logs lines = process_lines initial_analyzer lines"

section \<open>Analyses over the collected requests\<close>

text \<open>\<open>a / b\<close> on counts: true division, which raises on a zero divisor.\<close>

definition py_truediv :: "nat \<Rightarrow> nat \<Rightarrow> py_error + rat" where
  "py_truediv a b = (if b = 0 then Inl ZeroDivisionError else Inr (of_nat a / of_nat b))"

text \<open>
  \<open>analyze_overall_summary\<close>: the checkout error rate and the share of checkout traffic,
  in percent.
\<close>

definition analyze_overall_summary :: "analyzer \<Rightarrow> py_error + rat \<times> rat" where
  "analyze_overall_summary st =
     (let n_all = length (all_requests st);
          n_checkout = length (checkout_requests st);
          n_errors = length (checkout_errors st)
      in if 0 < n_checkout then
           e_bind (py_truediv n_errors n_checkout) (\<lambda>q.
           e_bind (if 0 < n_all then e_bind (py_truediv n_checkout n_all) (\<lambda>p. Inr (p * 100))
                   else Inr 0) (\<lambda>pct.
             Inr (q * 100, pct)))
         else Inr (0, 0))"

subsection \<open>Dictionaries with a default\<close>

text \<open>
  A \<open>defaultdict\<close> or \<open>Counter\<close> is a map; reading a missing key gives the default, and
  \<open>d[k] = f(d[k])\<close> stores the key.
\<close>

definition dd_get :: "('k \<rightharpoonup> 'v) \<Rightarrow> 'v \<Rightarrow> 'k \<Rightarrow> 'v" where
  "dd_get d dflt k = (case d k of None \<Rightarrow> dflt | Some v \<Rightarrow> v)"

definition dd_apply :: "('k \<rightharpoonup> 'v) \<Rightarrow> 'v \<Rightarrow> 'k \<Rightarrow> ('v \<Rightarrow> 'v) \<Rightarrow> ('k \<rightharpoonup> 'v)" where
  "dd_apply d dflt k f = d(k \<mapsto> f (dd_get d dflt k))"

text \<open>
  \<open>s.split(sep)[0]\<close>: the split is never empty (lemma \<open>split_on_not_Nil\<close> below), so the
  index cannot raise.
\<close>

definition clean_url :: "string \<Rightarrow> string" where
  "clean_url u = (case split_on CHR ''?'' u of w # ws \<Rightarrow> w | [] \<Rightarrow> [])"

subsection \<open>Daily and hourly tables\<close>

record day_stats =
  total :: nat
  checkout :: nat
  errors :: nat

definition zero_stats :: day_stats where
  "zero_stats = \<lparr>total = 0, checkout = 0, errors = 0\<rparr>"

text \<open>\<open>timestamp[:10]\<close> and \<open>timestamp[11:13]\<close>.\<close>

definition date_of :: "string \<Rightarrow> string" where
  "date_of ts = take 10 ts"

definition hour_of :: "string \<Rightarrow> string" where
  "hour_of ts = take 2 (drop 11 ts)"

text \<open>The three counting loops shared by \<open>analyze_daily_trends\<close> and \<open>analyze_hourly_patterns\<close>.\<close>

definition time_stats :: "(string \<Rightarrow> string) \<Rightarrow> analyzer \<Rightarrow> (string \<rightharpoonup> day_stats)" where
  "time_stats key st =
     (let d1 = fold (\<lambda>r d. dd_apply d zero_stats (key (timestamp r))
                               (\<lambda>s. s\<lparr>total := total s + 1\<rparr>))
                 (all_requests st) Map.empty;
          d2 = fold (\<lambda>r d. dd_apply d zero_stats (key (timestamp (entry r)))
                               (\<lambda>s. s\<lparr>checkout := checkout s + 1\<rparr>))
                 (checkout_requests st) d1
      in fold (\<lambda>e d. dd_apply d zero_stats (key (timestamp (entry e)))
                         (\<lambda>s. s\<lparr>errors := errors s + 1\<rparr>))
           (checkout_errors st) d2)"

definition daily_stats :: "analyzer \<Rightarrow> (string \<rightharpoonup> day_stats)" where
  "daily_stats st = time_stats date_of st"

definition hourly_stats :: "analyzer \<Rightarrow> (string \<rightharpoonup> day_stats)" where
  "hourly_stats st = time_stats hour_of st"

text \<open>
  \<open>(stats['errors'] / stats['checkout'] * 100) if stats['checkout'] > 0 else 0\<close> as the
  exact rational it stands for. This is the rate of an hourly row, which the model only
  reports; the daily loop below computes the same expression in double precision.
\<close>

definition bucket_error_rate :: "day_stats \<Rightarrow> py_error + rat" where
  "bucket_error_rate stats =
     (if 0 < checkout stats
      then e_bind (py_truediv (errors stats) (checkout stats)) (\<lambda>q. Inr (q * 100))
      else Inr 0)"

subsection \<open>Double-precision arithmetic\<close>

text \<open>
  The binary exponent of a positive rational \<open>x\<close>: the integer \<open>e\<close> with
  \<open>2 powi e \<le> x < 2 powi (e + 1)\<close> (lemma \<open>ilog2_bounds\<close> below), found from the bit
  lengths of numerator and denominator.
\<close>

definition ilog2 :: "rat \<Rightarrow> int" where
  "ilog2 x = (case quotient_of x of (a, b) \<Rightarrow>
                let g = bitlen a - bitlen b in if 2 powi g \<le> x then g else g - 1)"

text \<open>The nearest integer, a tie going to the even one.\<close>

definition round_half_even :: "rat \<Rightarrow> int" where
  "round_half_even x =
     (let f = \<lfloor>x\<rfloor>; d = x - of_int f
      in if d < 1 / 2 then f else if 1 / 2 < d then f + 1 else if even f then f else f + 1)"

text \<open>
  The binary64 value nearest to a rational, ties to even. The magnitude is rounded to a
  multiple of \<open>2 powi (e - 52)\<close>, where \<open>e\<close> is its binary exponent, at least \<open>-1022\<close>:
  below \<open>2 powi - 1022\<close> the spacing stays \<open>2 powi - 1074\<close>. The result is infinite when
  the rounded magnitude reaches \<open>2 powi 1024\<close>: the exponent is above 1023, or it is 1023
  and the significand rounds up to \<open>2 ^ 53\<close>.
\<close>

definition dbl_round :: "rat \<Rightarrow> pyfloat" where
  "dbl_round x =
     (if x = 0 then Fin 0
      else let e = max (ilog2 \<bar>x\<bar>) (- 1022);
               u = 2 powi (e - 52);
               k = round_half_even (\<bar>x\<bar> / u)
           in if 1023 < e \<or> (e = 1023 \<and> 2 ^ 53 \<le> k) then (if 0 < x then PInf else NInf)
              else Fin (sgn x * (of_int k * u)))"

text \<open>
  \<open>a / b\<close> on two \<open>int\<close>: the correctly rounded quotient, always finite; a quotient too
  large for a float raises \<open>OverflowError\<close>.
\<close>

definition fl_truediv :: "nat \<Rightarrow> nat \<Rightarrow> py_error + rat" where
  "fl_truediv a b =
     (if b = 0 then Inl ZeroDivisionError
      else case dbl_round (of_nat a / of_nat b) of
             Fin q \<Rightarrow> Inr q
           | _ \<Rightarrow> Inl OverflowError)"

text \<open>\<open>a * b\<close> on two finite floats, \<open>x + y\<close> and \<open>x - y\<close> on floats: the exact result, rounded.\<close>

definition fl_times :: "rat \<Rightarrow> rat \<Rightarrow> pyfloat" where
  "fl_times a b = dbl_round (a * b)"

fun pf_neg :: "pyfloat \<Rightarrow> pyfloat" where
  "pf_neg (Fin a) = Fin (- a)"
| "pf_neg PInf = NInf"
| "pf_neg NInf = PInf"
| "pf_neg NaN = NaN"

definition fl_add :: "pyfloat \<Rightarrow> pyfloat \<Rightarrow> pyfloat" where
  "fl_add x y = (case pf_add x y of Fin s \<Rightarrow> dbl_round s | z \<Rightarrow> z)"

definition fl_sub :: "pyfloat \<Rightarrow> pyfloat \<Rightarrow> pyfloat" where
  "fl_sub x y = fl_add x (pf_neg y)"

subsection \<open>The daily trend\<close>

text \<open>
  \<open>(stats['errors'] / stats['checkout'] * 100) if stats['checkout'] > 0 else 0\<close> in
  \<open>analyze_daily_trends\<close>, as the source computes it: the quotient of the two counts is
  rounded, and so is its product with 100.
\<close>

definition daily_error_rate :: "day_stats \<Rightarrow> py_error + pyfloat" where
  "daily_error_rate stats =
     (if 0 < checkout stats
      then e_bind (fl_truediv (errors stats) (checkout stats)) (\<lambda>q. Inr (fl_times q 100))
      else Inr (Fin 0))"

text \<open>
  The trend column of \<open>analyze_daily_trends\<close>: \<open>error_rate > prev_error_rate + 0.5\<close>, then
  \<open>error_rate < prev_error_rate - 0.5\<close>, on floats. The labels are the source's without
  their pictographs, and the first day has the empty label.
\<close>

definition trend_of :: "pyfloat option \<Rightarrow> pyfloat \<Rightarrow> string" where
  "trend_of prev_error_rate error_rate =
     (case prev_error_rate of
        None \<Rightarrow> []
      | Some prev \<Rightarrow>
          if pf_less (fl_add prev (Fin (1 / 2))) error_rate then ''WORSE''
          else if pf_less error_rate (fl_sub prev (Fin (1 / 2))) then ''BETTER''
          else ''STABLE'')"

text \<open>The display loop over the days in ascending order: error rate and trend of each.\<close>

fun daily_rows ::
  "pyfloat option \<Rightarrow> day_stats list \<Rightarrow> py_error + (pyfloat \<times> string) list" where
  "daily_rows prev_error_rate [] = Inr []"
| "daily_rows prev_error_rate (stats # rest) =
     e_bind (daily_error_rate stats) (\<lambda>error_rate.
     e_bind (daily_rows (Some error_rate) rest) (\<lambda>rows.
       Inr ((error_rate, trend_of prev_error_rate error_rate) # rows)))"

text \<open>\<open>sorted(daily_stats.keys())\<close>: the keys are the dates the three loops stored.\<close>

definition stats_keys :: "(string \<Rightarrow> string) \<Rightarrow> analyzer \<Rightarrow> string list" where
  "stats_keys key st =
     sort (remdups (map (\<lambda>r. key (timestamp r)) (all_requests st)
                    @ map (\<lambda>r. key (timestamp (entry r))) (checkout_requests st)
                    @ map (\<lambda>r. key (timestamp (entry r))) (checkout_errors st)))"

definition analyze_daily_trends :: "analyzer \<Rightarrow> py_error + (pyfloat \<times> string) list" where
  "analyze_daily_trends st =
     daily_rows None (map (dd_get (daily_stats st) zero_stats) (stats_keys date_of st))"

subsection \<open>The hourly table\<close>

text \<open>One row of \<open>analyze_hourly_patterns\<close>: the three averages per day and the error rate.\<close>

definition total_days :: "analyzer \<Rightarrow> nat" where
  "total_days st = length (remdups (map (\<lambda>r. date_of (timestamp r)) (all_requests st)))"

definition hourly_row :: "nat \<Rightarrow> day_stats \<Rightarrow> py_error + (rat \<times> rat \<times> rat) \<times> rat" where
  "hourly_row days stats =
     e_bind (if 0 < days then py_truediv (total stats) days else Inr 0) (\<lambda>avg_total.
     e_bind (if 0 < days then py_truediv (checkout stats) days else Inr 0) (\<lambda>avg_checkout.
     e_bind (if 0 < days then py_truediv (errors stats) days else Inr 0) (\<lambda>avg_errors.
     e_bind (bucket_error_rate stats) (\<lambda>error_rate.
       Inr ((avg_total, avg_checkout, avg_errors), error_rate)))))"

definition analyze_hourly_patterns ::
  "analyzer \<Rightarrow> py_error + ((rat \<times> rat \<times> rat) \<times> rat) list" where
  "analyze_hourly_patterns st =
     fold (\<lambda>hour acc. e_bind acc (\<lambda>rows.
             e_bind (hourly_row (total_days st) (dd_get (hourly_stats st) zero_stats hour))
               (\<lambda>row. Inr (rows @ [row]))))
       (stats_keys hour_of st) (Inr [])"

subsection \<open>Funnel tables\<close>

text \<open>
  \<open>analyze_pattern_breakdown\<close> groups by pattern category; a bucket has the keys
  \<open>requests\<close>, \<open>errors\<close> (here \<open>f_errors\<close>) and \<open>urls\<close>.
\<close>

record funnel_bucket =
  requests :: nat
  f_errors :: nat
  urls :: "string \<rightharpoonup> nat"

definition zero_bucket :: funnel_bucket where
  "zero_bucket = \<lparr>requests = 0, f_errors = 0, urls = Map.empty\<rparr>"

definition funnel_stats :: "analyzer \<Rightarrow> (string \<rightharpoonup> funnel_bucket)" where
  "funnel_stats st =
     (let f1 = fold (\<lambda>r d. dd_apply d zero_bucket (pattern_category r)
                               (\<lambda>b. b\<lparr>requests := requests b + 1\<rparr>))
                 (checkout_requests st) Map.empty
      in fold (\<lambda>e d. dd_apply d zero_bucket (pattern_category e)
                         (\<lambda>b. b\<lparr>f_errors := f_errors b + 1,
                                 urls := dd_apply (urls b) 0 (clean_url (url e)) (\<lambda>n. n + 1)\<rparr>))
           (checkout_errors st) f1)"

text \<open>
  A displayed row of \<open>analyze_pattern_breakdown\<close>: a bucket without requests is skipped
  (\<open>continue\<close>, here \<open>None\<close>), any other gets its error rate in percent.
\<close>

definition pattern_row :: "funnel_bucket \<Rightarrow> (py_error + rat) option" where
  "pattern_row stats =
     (if requests stats = 0 then None
      else Some (e_bind (py_truediv (f_errors stats) (requests stats)) (\<lambda>q. Inr (q * 100))))"

text \<open>
  \<open>analyze_checkout_funnel\<close> groups by checkout stage; a bucket has the keys \<open>requests\<close>
  and \<open>errors\<close> (here \<open>s_requests\<close> and \<open>s_errors\<close>).
\<close>

record stage_bucket =
  s_requests :: nat
  s_errors :: nat

definition zero_stage :: stage_bucket where
  "zero_stage = \<lparr>s_requests = 0, s_errors = 0\<rparr>"

definition stage_stats :: "analyzer \<Rightarrow> (string \<rightharpoonup> stage_bucket)" where
  "stage_stats st =
     (let f1 = fold (\<lambda>r d. dd_apply d zero_stage (checkout_stage r)
                               (\<lambda>b. b\<lparr>s_requests := s_requests b + 1\<rparr>))
                 (checkout_requests st) Map.empty
      in fold (\<lambda>e d. dd_apply d zero_stage (checkout_stage e)
                         (\<lambda>b. b\<lparr>s_errors := s_errors b + 1\<rparr>))
           (checkout_errors st) f1)"

text \<open>\<open>(stats['errors'] / stats['requests'] * 100) if stats['requests'] > 0 else 0\<close>\<close>

definition stage_row :: "stage_bucket \<Rightarrow> py_error + rat" where
  "stage_row stats =
     (if 0 < s_requests stats
      then e_bind (py_truediv (s_errors stats) (s_requests stats)) (\<lambda>q. Inr (q * 100))
      else Inr 0)"

subsection \<open>Status codes\<close>

definition status_code_errors :: "analyzer \<Rightarrow> (int \<rightharpoonup> nat)" where
  "status_code_errors st =
     fold (\<lambda>e c. dd_apply c 0 (status_code e) (\<lambda>n. n + 1)) (checkout_errors st) Map.empty"

definition stage_errors :: "analyzer \<Rightarrow> (string \<rightharpoonup> (int \<rightharpoonup> nat))" where
  "stage_errors st =
     fold (\<lambda>e d. dd_apply d Map.empty (checkout_stage e)
                    (\<lambda>c. dd_apply c 0 (status_code e) (\<lambda>n. n + 1)))
       (checkout_errors st) Map.empty"

subsection \<open>Latency samples\<close>

text \<open>The combined latency of a request: the sum of its three processing times.\<close>

definition total_time :: "checkout_entry \<Rightarrow> pyfloat" where
  "total_time req =
     pf_add (pf_add (request_processing_time (entry req)) (backend_processing_time (entry req)))
       (response_processing_time (entry req))"

text \<open>
  The sampling loop \<open>analyze_performance_correlation\<close> runs once over the successful
  requests and once over the errors: only a combined latency above zero is kept.
\<close>

definition valid_times :: "checkout_entry list \<Rightarrow> pyfloat list" where
  "valid_times reqs =
     fold (\<lambda>req samples. if pf_less (Fin 0) (total_time req) then samples @ [total_time req]
                           else samples) reqs []"

definition successful_requests :: "analyzer \<Rightarrow> checkout_entry list" where
  "successful_requests st = filter (\<lambda>r. status_code r < 400) (checkout_requests st)"

definition success_times :: "analyzer \<Rightarrow> pyfloat list" where
  "success_times st = valid_times (successful_requests st)"

definition error_times :: "analyzer \<Rightarrow> pyfloat list" where
  "error_times st = valid_times (checkout_errors st)"






subsection \<open>Traffic sources\<close>

text \<open>The eight counts of \<open>analyze_user_agents\<close>.\<close>

record traffic_counts =
  bot_requests :: nat
  human_requests :: nat
  bot_errors :: nat
  human_errors :: nat
  mobile_requests :: nat
  desktop_requests :: nat
  mobile_errors :: nat
  desktop_errors :: nat

definition analyze_user_agents :: "analyzer \<Rightarrow> traffic_counts" where
  "analyze_user_agents st =
     \<lparr>bot_requests = length (filter is_bot (checkout_requests st)),
      human_requests = length (filter (\<lambda>r. \<not> is_bot r) (checkout_requests st)),
      bot_errors = length (filter is_bot (checkout_errors st)),
      human_errors = length (filter (\<lambda>e. \<not> is_bot e) (checkout_errors st)),
      mobile_requests = length (filter is_mobile (checkout_requests st)),
      desktop_requests = length (filter (\<lambda>r. \<not> is_mobile r) (checkout_requests st)),
      mobile_errors = length (filter is_mobile (checkout_errors st)),
      desktop_errors = length (filter (\<lambda>e. \<not> is_mobile e) (checkout_errors st))\<rparr>"

section \<open>The aggregate state and its merge\<close>

text \<open>
  The aggregate state of the specification: the scalar totals, the breakdown tables and the
  two latency sample sequences, each as the analyses above compute it from the requests
  that \<open>analyze_logs\<close> collected.
\<close>

record aggregate_state =
  total_requests :: nat
  total_checkout_requests :: nat
  total_checkout_errors :: nat
  by_date :: "string \<rightharpoonup> day_stats"
  by_hour :: "string \<rightharpoonup> day_stats"
  by_funnel_stage :: "string \<rightharpoonup> stage_bucket"
  by_pattern_category :: "string \<rightharpoonup> funnel_bucket"
  by_status_code :: "int \<rightharpoonup> nat"
  by_stage_and_status :: "string \<rightharpoonup> (int \<rightharpoonup> nat)"
  by_traffic_source :: traffic_counts
  success_latencies :: "pyfloat list"
  error_latencies :: "pyfloat list"

definition aggregate :: "analyzer \<Rightarrow> aggregate_state" where
  "aggregate st =
     \<lparr>total_requests = length (all_requests st),
      total_checkout_requests = length (checkout_requests st),
      total_checkout_errors = length (checkout_errors st),
      by_date = daily_stats st,
      by_hour = hourly_stats st,
      by_funnel_stage = stage_stats st,
      by_pattern_category = funnel_stats st,
      by_status_code = status_code_errors st,
      by_stage_and_status = stage_errors st,
      by_traffic_source = analyze_user_agents st,
      success_latencies = success_times st,
      error_latencies = error_times st\<rparr>"

text \<open>
  The merge of the specification: counters are summed, tables are merged key by key with
  their counters summed, latency sequences are concatenated.
\<close>

definition merge_map :: "('v \<Rightarrow> 'v \<Rightarrow> 'v) \<Rightarrow> ('k \<rightharpoonup> 'v) \<Rightarrow> ('k \<rightharpoonup> 'v) \<Rightarrow> ('k \<rightharpoonup> 'v)" where
  "merge_map add m1 m2 =
     (\<lambda>k. case m1 k of
             None \<Rightarrow> m2 k
           | Some a \<Rightarrow> (case m2 k of None \<Rightarrow> Some a | Some b \<Rightarrow> Some (add a b)))"

definition add_day_stats :: "day_stats \<Rightarrow> day_stats \<Rightarrow> day_stats" where
  "add_day_stats a b =
     \<lparr>total = total a + total b, checkout = checkout a + checkout b,
      errors = errors a + errors b\<rparr>"

definition add_stage_bucket :: "stage_bucket \<Rightarrow> stage_bucket \<Rightarrow> stage_bucket" where
  "add_stage_bucket a b =
     \<lparr>s_requests = s_requests a + s_requests b, s_errors = s_errors a + s_errors b\<rparr>"

definition add_funnel_bucket :: "funnel_bucket \<Rightarrow> funnel_bucket \<Rightarrow> funnel_bucket" where
  "add_funnel_bucket a b =
     \<lparr>requests = requests a + requests b, f_errors = f_errors a + f_errors b,
      urls = merge_map (+) (urls a) (urls b)\<rparr>"

definition add_traffic_counts :: "traffic_counts \<Rightarrow> traffic_counts \<Rightarrow> traffic_counts" where
  "add_traffic_counts a b =
     \<lparr>bot_requests = bot_requests a + bot_requests b,
      human_requests = human_requests a + human_requests b,
      bot_errors = bot_errors a + bot_errors b,
      human_errors = human_errors a + human_errors b,
      mobile_requests = mobile_requests a + mobile_requests b,
      desktop_requests = desktop_requests a + desktop_requests b,
      mobile_errors = mobile_errors a + mobile_errors b,
      desktop_errors = desktop_errors a + desktop_errors b\<rparr>"

definition merge_aggregate :: "aggregate_state \<Rightarrow> aggregate_state \<Rightarrow> aggregate_state" where
  "merge_aggregate a b =
     \<lparr>total_requests = total_requests a + total_requests b,
      total_checkout_requests = total_checkout_requests a + total_checkout_requests b,
      total_checkout_errors = total_checkout_errors a + total_checkout_errors b,
      by_date = merge_map add_day_stats (by_date a) (by_date b),
      by_hour = merge_map add_day_stats (by_hour a) (by_hour b),
      by_funnel_stage = merge_map add_stage_bucket (by_funnel_stage a) (by_funnel_stage b),
      by_pattern_category =
        merge_map add_funnel_bucket (by_pattern_category a) (by_pattern_category b),
      by_status_code = merge_map (+) (by_status_code a) (by_status_code b),
      by_stage_and_status =
        merge_map (merge_map (+)) (by_stage_and_status a) (by_stage_and_status b),
      by_traffic_source = add_traffic_counts (by_traffic_source a) (by_traffic_source b),
      success_latencies = success_latencies a @ success_latencies b,
      error_latencies = error_latencies a @ error_latencies b\<rparr>"

text \<open>
  The same merge on what \<open>analyze_logs\<close> itself keeps: the three request lists are
  concatenated and the two line counters summed.
\<close>

definition merge_analyzer :: "analyzer \<Rightarrow> analyzer \<Rightarrow> analyzer" where
  "merge_analyzer a b =
     \<lparr>all_requests = all_requests a @ all_requests b,
      checkout_requests = checkout_requests a @ checkout_requests b,
      checkout_errors = checkout_errors a @ checkout_errors b,
      total_lines = total_lines a + total_lines b,
      parsed_lines = parsed_lines a + parsed_lines b\<rparr>"

section \<open>Notions of the specification\<close>

text \<open>
  The number of fields of a line: its maximal runs of characters other than white space,
  as \<open>len(line.split())\<close> counts them. The flag says whether the previous character
  belonged to a field.
\<close>

fun count_fields :: "bool \<Rightarrow> string \<Rightarrow> nat" where
  "count_fields inside [] = 0"
| "count_fields inside (c # cs) =
     (if is_space c then count_fields False cs
      else (if inside then 0 else 1) + count_fields True cs)"

definition n_fields :: "string \<Rightarrow> nat" where
  "n_fields line = count_fields False line"

text \<open>
  A value in a numeric field that is neither the field's sentinel nor numeric: the three
  latencies are read by \<open>float()\<close> with the sentinel \<open>-1\<close>, the two status codes and the
  two byte counts by \<open>int()\<close> with the sentinel \<open>-\<close>.
\<close>

definition non_numeric_latency :: "string \<Rightarrow> bool" where
  "non_numeric_latency g = (g \<noteq> ''-1'' \<and> py_float g = Inl ValueError)"

definition non_numeric_count :: "string \<Rightarrow> bool" where
  "non_numeric_count g = (g \<noteq> ''-'' \<and> py_int g = Inl ValueError)"

definition bad_numeric :: "string list \<Rightarrow> bool" where
  "bad_numeric groups =
     (non_numeric_latency (groups ! 5) \<or> non_numeric_latency (groups ! 6)
      \<or> non_numeric_latency (groups ! 7)
      \<or> non_numeric_count (groups ! 8) \<or> non_numeric_count (groups ! 9)
      \<or> non_numeric_count (groups ! 10) \<or> non_numeric_count (groups ! 11))"

text \<open>
  The host of a \<open>host:port\<close> field when the field is split at its last colon
  (\<open>field.rsplit(':', 1)[0]\<close>), as the specification words it.
\<close>

definition host_by_last_colon :: "string \<Rightarrow> string" where
  "host_by_last_colon g =
     (if CHR '':'' \<in> set g then rev (tl (dropWhile (\<lambda>c. c \<noteq> CHR '':'') (rev g))) else g)"


text \<open>
  The error rate of a day as a number, without rounding, and the trend label as the
  specification words it: the difference of two consecutive rates against a deadband of
  half a percentage point.
\<close>

definition exact_error_rate :: "day_stats \<Rightarrow> rat" where
  "exact_error_rate stats =
     (if 0 < checkout stats then of_nat (errors stats) / of_nat (checkout stats) * 100 else 0)"

definition deadband_label :: "rat \<Rightarrow> rat \<Rightarrow> string" where
  "deadband_label prev cur =
     (if 1 / 2 < cur - prev then ''WORSE''
      else if cur - prev < - (1 / 2) then ''BETTER''
      else ''STABLE'')"

section \<open>Example log lines\<close>

text \<open>
  Lines in the format of the load balancer, used to evaluate the analyzer. Their latencies
  are dyadic fractions, which a binary float holds exactly.
\<close>

definition line_home_200 :: string where
  \<open>line_home_200 = ''http 2023-12-15T10:30:00.123456Z shop-elb 10.0.0.1:54321 10.0.1.5:80 0.125 0.25 0.125 200 200 0 512 "GET http://shop.example.com:80/home HTTP/1.1" "Mozilla/5.0 (Macintosh)" - -''\<close>

definition line_payment_502 :: string where
  \<open>line_payment_502 = ''http 2023-12-15T10:31:00.123456Z shop-elb 10.0.0.2:54322 10.0.1.5:80 0.125 0.25 0.125 502 502 0 512 "GET http://shop.example.com:80/checkout/payment HTTP/1.1" "Mozilla/5.0 (Macintosh)" - -''\<close>

definition line_cart_200 :: string where
  \<open>line_cart_200 = ''http 2023-12-15T11:30:00.123456Z shop-elb 10.0.0.3:54323 10.0.1.5:80 0.125 0.25 0.125 200 200 0 512 "GET http://shop.example.com:80/cart/view HTTP/1.1" "Mozilla/5.0 (Macintosh)" - -''\<close>

definition line_cart_404 :: string where
  \<open>line_cart_404 = ''http 2023-12-15T11:31:00.123456Z shop-elb 10.0.0.3:54323 10.0.1.5:80 0.125 0.25 0.125 404 404 0 512 "GET http://shop.example.com:80/cart/view HTTP/1.1" "Mozilla/5.0 (Macintosh)" - -''\<close>

definition line_no_backend :: string where
  \<open>line_no_backend = ''http 2023-12-15T11:32:00.123456Z shop-elb 10.0.0.4:54324 - -1 -1 -1 503 - 0 0 "GET http://shop.example.com:80/cart/view HTTP/1.1" "Mozilla/5.0 (Macintosh)" - -''\<close>

definition line_ipv6_client :: string where
  \<open>line_ipv6_client = ''http 2023-12-15T11:33:00.123456Z shop-elb 2001:db8::1:54325 10.0.1.5:80 0.125 0.25 0.125 200 200 0 512 "GET http://shop.example.com:80/cart/view HTTP/1.1" "Mozilla/5.0 (Macintosh)" - -''\<close>


definition line_truncated :: string where
  \<open>line_truncated = ''http 2023-12-15T11:35:00.123456Z shop-elb 10.0.0.6:54327 10.0.1.5:80 0.125''\<close>

definition line_bad_latency :: string where
  \<open>line_bad_latency = ''http 2023-12-15T11:36:00.123456Z shop-elb 10.0.0.7:54328 10.0.1.5:80 0.125 fast 0.125 200 200 0 512 "GET http://shop.example.com:80/cart/view HTTP/1.1" "Mozilla/5.0 (Macintosh)" - -''\<close>

text \<open>The entries the parser builds from some of these lines, and what classifying adds.\<close>

definition entry_home_200 :: log_entry where
  "entry_home_200 =
     \<lparr>timestamp = ''2023-12-15T10:30:00.123456Z'', client_ip = ''10.0.0.1'',
      target_ip = Some ''10.0.1.5'', request_processing_time = Fin (1 / 8),
      backend_processing_time = Fin (1 / 4), response_processing_time = Fin (1 / 8),
      elb_status_code = Some 200, backend_status_code = Some 200,
      received_bytes = 0, sent_bytes = 512,
      request = ''GET http://shop.example.com:80/home HTTP/1.1'',
      user_agent = ''Mozilla/5.0 (Macintosh)'', ssl_cipher = [], ssl_protocol = []\<rparr>"

definition entry_cart_200 :: log_entry where
  "entry_cart_200 =
     \<lparr>timestamp = ''2023-12-15T11:30:00.123456Z'', client_ip = ''10.0.0.3'',
      target_ip = Some ''10.0.1.5'', request_processing_time = Fin (1 / 8),
      backend_processing_time = Fin (1 / 4), response_processing_time = Fin (1 / 8),
      elb_status_code = Some 200, backend_status_code = Some 200,
      received_bytes = 0, sent_bytes = 512,
      request = ''GET http://shop.example.com:80/cart/view HTTP/1.1'',
      user_agent = ''Mozilla/5.0 (Macintosh)'', ssl_cipher = [], ssl_protocol = []\<rparr>"

definition entry_cart_404 :: log_entry where
  "entry_cart_404 =
     \<lparr>timestamp = ''2023-12-15T11:31:00.123456Z'', client_ip = ''10.0.0.3'',
      target_ip = Some ''10.0.1.5'', request_processing_time = Fin (1 / 8),
      backend_processing_time = Fin (1 / 4), response_processing_time = Fin (1 / 8),
      elb_status_code = Some 404, backend_status_code = Some 404,
      received_bytes = 0, sent_bytes = 512,
      request = ''GET http://shop.example.com:80/cart/view HTTP/1.1'',
      user_agent = ''Mozilla/5.0 (Macintosh)'', ssl_cipher = [], ssl_protocol = []\<rparr>"

definition entry_no_backend :: log_entry where
  "entry_no_backend =
     \<lparr>timestamp = ''2023-12-15T11:32:00.123456Z'', client_ip = ''10.0.0.4'',
      target_ip = None, request_processing_time = Fin (- 1),
      backend_processing_time = Fin (- 1), response_processing_time = Fin (- 1),
      elb_status_code = Some 503, backend_status_code = None,
      received_bytes = 0, sent_bytes = 0,
      request = ''GET http://shop.example.com:80/cart/view HTTP/1.1'',
      user_agent = ''Mozilla/5.0 (Macintosh)'', ssl_cipher = [], ssl_protocol = []\<rparr>"


definition cart_view :: "log_entry \<Rightarrow> int \<Rightarrow> checkout_entry" where
  "cart_view e c =
     \<lparr>entry = e, status_code = c, url = ''http://shop.example.com:80/cart/view'',
      checkout_stage = ''Cart Operations'', pattern_category = ''Shopping Cart'',
      is_bot = False, is_mobile = False\<rparr>"

definition entry_ipv6_client :: log_entry where
  "entry_ipv6_client =
     \<lparr>timestamp = ''2023-12-15T11:33:00.123456Z'', client_ip = ''2001'',
      target_ip = Some ''10.0.1.5'', request_processing_time = Fin (1 / 8),
      backend_processing_time = Fin (1 / 4), response_processing_time = Fin (1 / 8),
      elb_status_code = Some 200, backend_status_code = Some 200,
      received_bytes = 0, sent_bytes = 512,
      request = ''GET http://shop.example.com:80/cart/view HTTP/1.1'',
      user_agent = ''Mozilla/5.0 (Macintosh)'', ssl_cipher = [], ssl_protocol = []\<rparr>"

section \<open>Properties of the classifier\<close>

lemma any_term_in_single: "any_term_in [t] u = str_in t u"
  by (simp add: any_term_in_def)

text \<open>
  Claim C8. The funnel stage and the pattern category are functions of the URL alone, each
  the first match of its ordered chain of substring tests over the lower-cased URL; the URL
  \<open>/cart/checkout/payment\<close> is a cart operation for the funnel-stage chain, whose cart test
  comes before its payment test.
\<close>

theorem classification_first_match:
  "categorize_checkout_stage u = first_match funnel_stage_chain ''Other E-commerce'' (lower u)
   \<and> get_pattern_category u = first_match pattern_category_chain ''Other Checkout'' (lower u)
   \<and> categorize_checkout_stage ''/cart/checkout/payment'' = ''Cart Operations''
   \<and> any_term_in [''payment'', ''pay'', ''billing'', ''paypal'', ''stripe'', ''credit'']
         (lower ''/cart/checkout/payment'')"
proof -
  have stage: "categorize_checkout_stage u
      = first_match funnel_stage_chain ''Other E-commerce'' (lower u)"
    unfolding categorize_checkout_stage_def funnel_stage_chain_def Let_def first_match.simps
      any_term_in_single ..
  have cat: "get_pattern_category u
      = first_match pattern_category_chain ''Other Checkout'' (lower u)"
    unfolding get_pattern_category_def pattern_category_chain_def Let_def first_match.simps ..
  have ex: "categorize_checkout_stage ''/cart/checkout/payment'' = ''Cart Operations''"
    by code_simp
  have pay: "any_term_in [''payment'', ''pay'', ''billing'', ''paypal'', ''stripe'', ''credit'']
         (lower ''/cart/checkout/payment'')"
    by code_simp
  from stage cat ex pay show ?thesis by blast
qed

section \<open>Rates and trends\<close>

lemma e_bind_Inr [simp]: "e_bind (Inr v) f = f v"
  by (simp add: e_bind_def)

lemma e_bind_Inl [simp]: "e_bind (Inl e) f = Inl e"
  by (simp add: e_bind_def)

lemma py_truediv_pos: "0 < b \<Longrightarrow> py_truediv a b = Inr (of_nat a / of_nat b)"
  by (simp add: py_truediv_def)

lemma bucket_error_rate_total: "\<exists>r. bucket_error_rate stats = Inr r"
  by (simp add: bucket_error_rate_def py_truediv_pos)

lemma hourly_row_total: "\<exists>avgs r. hourly_row days stats = Inr (avgs, r) \<and> bucket_error_rate stats = Inr r"
  by (simp add: hourly_row_def bucket_error_rate_def py_truediv_pos)

lemma overall_total: "\<exists>r. analyze_overall_summary st = Inr r"
  by (simp add: analyze_overall_summary_def Let_def py_truediv_pos)

lemma pattern_row_cases:
  "pattern_row b = (if requests b = 0 then None
                    else Some (Inr (of_nat (f_errors b) / of_nat (requests b) * 100)))"
  by (simp add: pattern_row_def py_truediv_pos)

text \<open>
  Claim C7. A date or hour bucket without checkout requests, a funnel-stage bucket without
  requests, an empty set of checkout requests and an empty set of requests all give the
  rate or percentage 0; no rate computation raises a division error, whatever the counts.
  The last two conjuncts say so of the rate of a day, which is computed in double
  precision.
\<close>

theorem zero_denominator_rates:
  "(checkout stats = 0 \<longrightarrow> bucket_error_rate stats = Inr 0)
   \<and> (checkout stats = 0 \<longrightarrow> (\<exists>avgs. hourly_row days stats = Inr (avgs, 0)))
   \<and> (s_requests sb = 0 \<longrightarrow> stage_row sb = Inr 0)
   \<and> (checkout_requests st = [] \<longrightarrow> analyze_overall_summary st = Inr (0, 0))
   \<and> (all_requests st = [] \<longrightarrow> (\<exists>q. analyze_overall_summary st = Inr (q, 0)))
   \<and> (\<exists>r. bucket_error_rate stats = Inr r)
   \<and> (\<exists>r. hourly_row days stats = Inr r)
   \<and> (\<exists>r. stage_row sb = Inr r)
   \<and> (\<exists>r. analyze_overall_summary st = Inr r)
   \<and> (\<forall>e. pattern_row fb \<noteq> Some (Inl e))
   \<and> (checkout stats = 0 \<longrightarrow> daily_error_rate stats = Inr (Fin 0))
   \<and> daily_error_rate stats \<noteq> Inl ZeroDivisionError"
proof -
  have 1: "checkout stats = 0 \<longrightarrow> bucket_error_rate stats = Inr 0"
    by (simp add: bucket_error_rate_def)
  have 9: "checkout stats = 0 \<longrightarrow> daily_error_rate stats = Inr (Fin 0)"
    by (simp add: daily_error_rate_def)
  have 10: "daily_error_rate stats \<noteq> Inl ZeroDivisionError"
    by (simp add: daily_error_rate_def fl_truediv_def split: pyfloat.split)
  have 2: "checkout stats = 0 \<longrightarrow> (\<exists>avgs. hourly_row days stats = Inr (avgs, 0))"
    by (simp add: hourly_row_def bucket_error_rate_def py_truediv_pos)
  have 3: "s_requests sb = 0 \<longrightarrow> stage_row sb = Inr 0"
    by (simp add: stage_row_def)
  have 4: "checkout_requests st = [] \<longrightarrow> analyze_overall_summary st = Inr (0, 0)"
    by (simp add: analyze_overall_summary_def)
  have 5: "all_requests st = [] \<longrightarrow> (\<exists>q. analyze_overall_summary st = Inr (q, 0))"
    by (simp add: analyze_overall_summary_def Let_def py_truediv_pos)
  have 6: "\<exists>r. stage_row sb = Inr r"
    by (simp add: stage_row_def py_truediv_pos)
  have 7: "\<exists>r. hourly_row days stats = Inr r"
    using hourly_row_total [of days stats] by blast
  have 8: "\<forall>e. pattern_row fb \<noteq> Some (Inl e)"
    by (simp add: pattern_row_cases)
  from 1 2 3 4 5 6 7 8 9 10 bucket_error_rate_total [of stats] overall_total [of st]
  show ?thesis by blast
qed

theorem zero_denominator_rates_witness:
  "checkout zero_stats = 0 \<and> bucket_error_rate zero_stats = Inr 0
   \<and> (\<exists>avgs. hourly_row 0 zero_stats = Inr (avgs, 0))
   \<and> s_requests zero_stage = 0 \<and> stage_row zero_stage = Inr 0
   \<and> checkout_requests initial_analyzer = [] \<and> all_requests initial_analyzer = []
   \<and> analyze_overall_summary initial_analyzer = Inr (0, 0)
   \<and> daily_error_rate zero_stats = Inr (Fin 0)"
  using zero_denominator_rates [of zero_stats 0 zero_stage initial_analyzer zero_bucket]
  by (simp add: zero_stats_def zero_stage_def initial_analyzer_def)

section \<open>Properties of the parser\<close>

lemma e_bind_eq_Inr: "(e_bind m f = Inr r) = (\<exists>v. m = Inr v \<and> f v = Inr r)"
  by (cases m) simp_all

lemma e_bind_eq_Inl: "(e_bind m f = Inl e) = (m = Inl e \<or> (\<exists>v. m = Inr v \<and> f v = Inl e))"
  by (cases m) simp_all

lemma split_on_not_Nil: "split_on sep s \<noteq> []"
  by (induction s) (auto split: list.splits)

lemma split_on_first: "\<exists>ws. split_on sep s = takeWhile (\<lambda>c. c \<noteq> sep) s # ws"
  by (induction s) (auto split: list.splits)

lemma host_of_eq: "host_of g = Inr (takeWhile (\<lambda>c. c \<noteq> CHR '':'') g)"
proof -
  obtain ws where "split_on CHR '':'' g = takeWhile (\<lambda>c. c \<noteq> CHR '':'') g # ws"
    using split_on_first by blast
  then show ?thesis by (simp add: host_of_def py_index_def)
qed

lemma clean_url_eq: "clean_url u = takeWhile (\<lambda>c. c \<noteq> CHR ''?'') u"
proof -
  obtain ws where "split_on CHR ''?'' u = takeWhile (\<lambda>c. c \<noteq> CHR ''?'') u # ws"
    using split_on_first by blast
  then show ?thesis by (simp add: clean_url_def)
qed

lemma py_int_error: "py_int g = Inl e \<Longrightarrow> e = ValueError"
  by (auto simp: py_int_def split: prod.splits option.splits if_splits)

lemma py_float_error: "py_float g = Inl e \<Longrightarrow> e = ValueError"
  by (auto simp: py_float_def split: prod.splits option.splits if_splits)

lemma latency_of_error: "latency_of g = Inl e \<Longrightarrow> e = ValueError"
  by (auto simp: latency_of_def dest: py_float_error split: if_splits)

lemma status_of_error: "status_of g = Inl e \<Longrightarrow> e = ValueError"
  by (auto simp: status_of_def e_bind_eq_Inl dest: py_int_error split: if_splits)

lemma bytes_of_error: "bytes_of g = Inl e \<Longrightarrow> e = ValueError"
  by (auto simp: bytes_of_def dest: py_int_error split: if_splits)

lemma py_index_error: "py_index xs i = Inl e \<Longrightarrow> e = IndexError"
  by (auto simp: py_index_def split: if_splits)

lemma py_index_Inr: "(py_index xs i = Inr v) = (i < length xs \<and> v = xs ! i)"
  by (auto simp: py_index_def)

text \<open>Only ValueError and IndexError can leave the dictionary display.\<close>

lemma build_entry_error:
  assumes "build_entry groups = Inl e"
  shows "e = ValueError \<or> e = IndexError"
  using assms unfolding build_entry_def e_bind_eq_Inl
  by (auto simp: host_of_eq dest: py_index_error latency_of_error status_of_error bytes_of_error
      split: if_splits)

lemma build_entry_fields:
  assumes "build_entry groups = Inr e"
  shows "16 \<le> length groups
    \<and> timestamp e = groups ! 1
    \<and> client_ip e = takeWhile (\<lambda>c. c \<noteq> CHR '':'') (groups ! 3)
    \<and> target_ip e = (if groups ! 4 \<noteq> ''-''
                      then Some (takeWhile (\<lambda>c. c \<noteq> CHR '':'') (groups ! 4)) else None)
    \<and> latency_of (groups ! 5) = Inr (request_processing_time e)
    \<and> latency_of (groups ! 6) = Inr (backend_processing_time e)
    \<and> latency_of (groups ! 7) = Inr (response_processing_time e)
    \<and> status_of (groups ! 8) = Inr (elb_status_code e)
    \<and> status_of (groups ! 9) = Inr (backend_status_code e)
    \<and> bytes_of (groups ! 10) = Inr (received_bytes e)
    \<and> bytes_of (groups ! 11) = Inr (sent_bytes e)
    \<and> request e = groups ! 12
    \<and> user_agent e = groups ! 13"
  using assms unfolding build_entry_def e_bind_eq_Inr py_index_Inr host_of_eq
  by (auto split: if_splits)

lemma parse_try_error:
  assumes "parse_try line = Inl e"
  shows "e = ValueError \<or> e = IndexError"
  using assms build_entry_error
  by (auto simp: parse_try_def e_bind_eq_Inl split: option.splits if_splits)

lemma parse_log_line_total: "\<exists>r. parse_log_line line = Inr r"
proof (cases "parse_try line")
  case (Inl e)
  then have "e = ValueError \<or> e = IndexError" by (rule parse_try_error)
  with Inl show ?thesis by (auto simp: parse_log_line_def)
next
  case (Inr r)
  then show ?thesis by (simp add: parse_log_line_def)
qed

lemma parse_log_line_Some:
  "(parse_log_line line = Inr (Some e))
   = (\<exists>groups. re_match_line line = Some groups \<and> build_entry groups = Inr e)"
proof
  assume a: "parse_log_line line = Inr (Some e)"
  show "\<exists>groups. re_match_line line = Some groups \<and> build_entry groups = Inr e"
  proof (cases "parse_try line")
    case (Inl x)
    with a show ?thesis by (auto simp: parse_log_line_def split: if_splits)
  next
    case (Inr r)
    with a have "parse_try line = Inr (Some e)" by (simp add: parse_log_line_def)
    then show ?thesis
      by (auto simp: parse_try_def e_bind_eq_Inr split: option.splits if_splits)
  qed
next
  assume "\<exists>groups. re_match_line line = Some groups \<and> build_entry groups = Inr e"
  then obtain groups where g: "re_match_line line = Some groups" "build_entry groups = Inr e"
    by blast
  from g(2) have "16 \<le> length groups" using build_entry_fields by blast
  with g show "parse_log_line line = Inr (Some e)"
    by (simp add: parse_log_line_def parse_try_def)
qed

lemma parse_log_line_no_match:
  "re_match_line line = None \<Longrightarrow> parse_log_line line = Inr None"
  by (simp add: parse_log_line_def parse_try_def)

lemma parse_log_line_build_error:
  assumes "re_match_line line = Some groups" "build_entry groups = Inl e"
  shows "parse_log_line line = Inr None"
proof -
  from assms(2) have "e = ValueError \<or> e = IndexError" by (rule build_entry_error)
  with assms show ?thesis
    by (auto simp: parse_log_line_def parse_try_def)
qed

subsection \<open>The pattern and the fields of a line\<close>

lemma count_fields_nonspace_run:
  "\<forall>c \<in> set g. \<not> is_space c \<Longrightarrow> count_fields True (g @ r) = count_fields True r"
  by (induction g) auto

lemma count_fields_start:
  "g \<noteq> [] \<Longrightarrow> \<forall>c \<in> set g. \<not> is_space c
   \<Longrightarrow> count_fields False (g @ r) = Suc (count_fields True r)"
  by (cases g) (auto simp: count_fields_nonspace_run)

lemma count_fields_space_run:
  "w \<noteq> [] \<Longrightarrow> \<forall>c \<in> set w. is_space c \<Longrightarrow> count_fields b (w @ r) = count_fields False r"
  by (induction w arbitrary: b) (auto, (metis append_Nil)+)

lemma re_nonspace_fields:
  assumes "re_nonspace s = Some (g, r)"
  shows "count_fields False s = Suc (count_fields True r)"
proof -
  from assms have g: "g = takeWhile (\<lambda>c. \<not> is_space c) s" "g \<noteq> []"
    and r: "r = dropWhile (\<lambda>c. \<not> is_space c) s"
    by (auto simp: re_nonspace_def split: if_splits)
  have "s = g @ r" by (simp add: g r)
  moreover have "\<forall>c \<in> set g. \<not> is_space c" unfolding g(1) by (auto dest: set_takeWhileD)
  ultimately show ?thesis using count_fields_start [OF g(2), where r = r] by simp
qed

lemma re_spaces_fields:
  assumes "re_spaces s = Some r"
  shows "count_fields b s = count_fields False r"
proof -
  define w where "w = takeWhile is_space s"
  from assms have w: "w \<noteq> []" and r: "r = dropWhile is_space s"
    by (auto simp: re_spaces_def w_def split: if_splits)
  have "s = w @ r" by (simp add: w_def r)
  moreover have "\<forall>c \<in> set w. is_space c" unfolding w_def by (auto dest: set_takeWhileD)
  ultimately show ?thesis using count_fields_space_run [OF w, where r = r and b = b] by simp
qed

lemma re_quoted_shape:
  assumes "re_quoted s = Some (g, r)"
  shows "s = dquote # g @ dquote # r"
proof -
  from assms obtain t where s: "s = dquote # t"
    by (cases s) (auto simp: re_quoted_def split: if_splits)
  from assms s obtain q where d: "dropWhile (\<lambda>c. c \<noteq> dquote) t = q # r"
    and g: "g = takeWhile (\<lambda>c. c \<noteq> dquote) t"
    by (auto simp: re_quoted_def split: list.splits)
  have "q = dquote" using hd_dropWhile [of "\<lambda>c. c \<noteq> dquote" t] d by auto
  with d g have "t = g @ dquote # r"
    by (metis takeWhile_dropWhile_id)
  with s show ?thesis by simp
qed

lemma dquote_not_space: "\<not> is_space dquote"
  by (simp add: is_space_def dquote_def)

text \<open>A quoted group followed by white space is at least one field.\<close>

lemma re_quoted_fields:
  assumes "re_quoted s = Some (g, r)" "re_spaces r = Some r'"
  shows "Suc (count_fields False r') \<le> count_fields False s"
proof -
  have s: "s = dquote # (g @ [dquote]) @ r" using re_quoted_shape [OF assms(1)] by simp
  have "count_fields False s = Suc (count_fields True ((g @ [dquote]) @ r))"
    unfolding s using dquote_not_space by simp
  moreover have "count_fields True ((g @ [dquote]) @ r) = count_fields False r'
      \<or> count_fields False r' \<le> count_fields True ((g @ [dquote]) @ r)"
  proof -
    have "count_fields b (x @ dquote # r) \<ge> count_fields False r'" for b x
    proof (induction x arbitrary: b)
      case Nil
      show ?case using dquote_not_space re_spaces_fields [OF assms(2), of True] by simp
    next
      case (Cons c x)
      show ?case using Cons.IH [of False] Cons.IH [of True] by auto
    qed
    from this [of True g] show ?thesis by simp
  qed
  ultimately show ?thesis by auto
qed

lemma re_fields_count:
  "re_fields k s = Some (gs, r) \<Longrightarrow> length gs = k \<and> count_fields False s = k + count_fields False r"
proof (induction k arbitrary: s gs r)
  case 0
  then show ?case by simp
next
  case (Suc k)
  from Suc.prems obtain g r1 r2 gs' where
    a: "re_nonspace s = Some (g, r1)" and b: "re_spaces r1 = Some r2"
    and c: "re_fields k r2 = Some (gs', r)" and d: "gs = g # gs'"
    by (auto split: option.splits)
  from Suc.IH [OF c] re_nonspace_fields [OF a] re_spaces_fields [OF b, of True] d
  show ?case by simp
qed

lemma re_match_line_fields:
  assumes "re_match_line line = Some groups"
  shows "length groups = 16 \<and> 16 \<le> n_fields line"
proof -
  from assms obtain gs r1 g12 r2 r3 g13 r4 r5 g14 r6 r7 g15 r8 where
    f: "re_fields 12 line = Some (gs, r1)"
    and q1: "re_quoted r1 = Some (g12, r2)" and s1: "re_spaces r2 = Some r3"
    and q2: "re_quoted r3 = Some (g13, r4)" and s2: "re_spaces r4 = Some r5"
    and n1: "re_nonspace r5 = Some (g14, r6)" and s3: "re_spaces r6 = Some r7"
    and n2: "re_nonspace r7 = Some (g15, r8)"
    and g: "groups = gs @ [g12, g13, g14, g15]"
    by (auto simp: re_match_line_def split: option.splits prod.splits)
  from re_fields_count [OF f] have l: "length gs = 12"
    and c0: "count_fields False line = 12 + count_fields False r1" by simp_all
  have c1: "Suc (count_fields False r3) \<le> count_fields False r1"
    by (rule re_quoted_fields [OF q1 s1])
  have c2: "Suc (count_fields False r5) \<le> count_fields False r3"
    by (rule re_quoted_fields [OF q2 s2])
  have c3: "count_fields False r5 = Suc (count_fields True r6)"
    by (rule re_nonspace_fields [OF n1])
  have c4: "count_fields True r6 = count_fields False r7"
    by (rule re_spaces_fields [OF s3])
  have c5: "count_fields False r7 = Suc (count_fields True r8)"
    by (rule re_nonspace_fields [OF n2])
  from c0 c1 c2 c3 c4 c5 have "16 \<le> count_fields False line" by linarith
  with l g show ?thesis by (simp add: n_fields_def)
qed

lemma bad_numeric_no_entry:
  assumes "bad_numeric groups"
  shows "build_entry groups \<noteq> Inr e"
proof
  assume "build_entry groups = Inr e"
  from build_entry_fields [OF this] assms show False
    by (auto simp: bad_numeric_def non_numeric_latency_def non_numeric_count_def
        latency_of_def status_of_def bytes_of_def split: if_splits)
qed

text \<open>
  Claim C3. \<open>parse_log_line\<close> returns for every line, with an entry or with the failure
  marker \<open>None\<close>, and no exception leaves it. A line of fewer than sixteen fields (runs
  of characters other than white space) gives the marker, as does any line the pattern
  does not match, and so does a line of the right shape with a value that is neither
  numeric nor the sentinel in a latency, status or byte-count field. The function reads
  nothing but its argument and changes no state: it is a function of the line.
\<close>

theorem parse_log_line_total_or_marker:
  "(\<exists>r. parse_log_line line = Inr r)
   \<and> (n_fields line < 16 \<longrightarrow> parse_log_line line = Inr None)
   \<and> (re_match_line line = None \<longrightarrow> parse_log_line line = Inr None)
   \<and> (re_match_line line = Some groups \<and> bad_numeric groups
        \<longrightarrow> parse_log_line line = Inr None)"
proof -
  have no_match: "parse_log_line line = Inr None" if "re_match_line line = None"
    using that by (rule parse_log_line_no_match)
  have short: "parse_log_line line = Inr None" if "n_fields line < 16"
  proof (cases "re_match_line line")
    case None
    then show ?thesis by (rule parse_log_line_no_match)
  next
    case (Some gs)
    from re_match_line_fields [OF this] that show ?thesis by simp
  qed
  have bad: "parse_log_line line = Inr None"
    if m: "re_match_line line = Some groups" and b: "bad_numeric groups"
  proof (cases "build_entry groups")
    case (Inl e)
    with m show ?thesis by (rule parse_log_line_build_error)
  next
    case (Inr e)
    with bad_numeric_no_entry [OF b, of e] show ?thesis by simp
  qed
  from short no_match bad parse_log_line_total [of line] show ?thesis by blast
qed

theorem parse_log_line_total_or_marker_witness:
  "n_fields line_truncated < 16 \<and> parse_log_line line_truncated = Inr None
   \<and> re_match_line line_bad_latency
       = Some [''http'', ''2023-12-15T11:36:00.123456Z'', ''shop-elb'', ''10.0.0.7:54328'',
               ''10.0.1.5:80'', ''0.125'', ''fast'', ''0.125'', ''200'', ''200'', ''0'', ''512'',
               ''GET http://shop.example.com:80/cart/view HTTP/1.1'',
               ''Mozilla/5.0 (Macintosh)'', ''-'', ''-'']
   \<and> non_numeric_latency ''fast''
   \<and> parse_log_line line_bad_latency = Inr None"
proof -
  let ?gs = "[''http'', ''2023-12-15T11:36:00.123456Z'', ''shop-elb'', ''10.0.0.7:54328'',
               ''10.0.1.5:80'', ''0.125'', ''fast'', ''0.125'', ''200'', ''200'', ''0'', ''512'',
               ''GET http://shop.example.com:80/cart/view HTTP/1.1'',
               ''Mozilla/5.0 (Macintosh)'', ''-'', ''-'']"
  have a: "n_fields line_truncated < 16" by code_simp
  have b: "re_match_line line_bad_latency = Some ?gs" by code_simp
  have c: "non_numeric_latency ''fast''" by code_simp
  then have d: "bad_numeric ?gs" by (simp add: bad_numeric_def)
  from a b c d parse_log_line_total_or_marker [of line_truncated]
    parse_log_line_total_or_marker [of line_bad_latency ?gs]
  show ?thesis by blast
qed

text \<open>
  Claim C5, as stated: the host kept from a \<open>host:port\<close> field is what precedes the last
  colon. The client field \<open>2001:db8::1:54325\<close> refutes it: the parser keeps \<open>2001\<close>.
\<close>

theorem host_last_colon_counterexample:
  "re_match_line line_ipv6_client
     = Some [''http'', ''2023-12-15T11:33:00.123456Z'', ''shop-elb'', ''2001:db8::1:54325'',
             ''10.0.1.5:80'', ''0.125'', ''0.25'', ''0.125'', ''200'', ''200'', ''0'', ''512'',
             ''GET http://shop.example.com:80/cart/view HTTP/1.1'',
             ''Mozilla/5.0 (Macintosh)'', ''-'', ''-'']
   \<and> parse_log_line line_ipv6_client = Inr (Some entry_ipv6_client)
   \<and> client_ip entry_ipv6_client = ''2001''
   \<and> host_by_last_colon ''2001:db8::1:54325'' = ''2001:db8::1''"
proof -
  have a: "re_match_line line_ipv6_client
     = Some [''http'', ''2023-12-15T11:33:00.123456Z'', ''shop-elb'', ''2001:db8::1:54325'',
             ''10.0.1.5:80'', ''0.125'', ''0.25'', ''0.125'', ''200'', ''200'', ''0'', ''512'',
             ''GET http://shop.example.com:80/cart/view HTTP/1.1'',
             ''Mozilla/5.0 (Macintosh)'', ''-'', ''-'']"
    by code_simp
  have b: "parse_log_line line_ipv6_client = Inr (Some entry_ipv6_client)" by code_simp
  have c: "client_ip entry_ipv6_client = ''2001''" by (simp add: entry_ipv6_client_def)
  have d: "host_by_last_colon ''2001:db8::1:54325'' = ''2001:db8::1''" by code_simp
  from a b c d show ?thesis by simp
qed

text \<open>
  Claim C5, amended. The parser keeps, of the client field and of the backend field, what
  precedes the first colon; that is the host whenever the host has no colon of its own. A
  backend field \<open>-\<close> gives no backend host.
\<close>

theorem host_before_first_colon:
  "re_match_line line = Some groups \<and> parse_log_line line = Inr (Some e)
   \<longrightarrow> client_ip e = takeWhile (\<lambda>c. c \<noteq> CHR '':'') (groups ! 3)
     \<and> target_ip e = (if groups ! 4 = ''-'' then None
                       else Some (takeWhile (\<lambda>c. c \<noteq> CHR '':'') (groups ! 4)))
     \<and> (\<forall>host port. groups ! 3 = host @ CHR '':'' # port \<and> CHR '':'' \<notin> set host
           \<longrightarrow> client_ip e = host)
     \<and> (\<forall>host port. groups ! 4 = host @ CHR '':'' # port \<and> CHR '':'' \<notin> set host
           \<longrightarrow> target_ip e = Some host)"
proof (intro impI, elim conjE)
  assume m: "re_match_line line = Some groups" and p: "parse_log_line line = Inr (Some e)"
  from p obtain gs where "re_match_line line = Some gs" "build_entry gs = Inr e"
    unfolding parse_log_line_Some by blast
  with m have b: "build_entry groups = Inr e" by simp
  note f = build_entry_fields [OF b]
  have t: "takeWhile (\<lambda>c. c \<noteq> CHR '':'') (host @ CHR '':'' # port) = host"
    if "CHR '':'' \<notin> set host" for host port :: string
    using that by (induction host) auto
  have n: "host @ CHR '':'' # port \<noteq> ''-''" for host port :: string
    by (cases host) auto
  show "client_ip e = takeWhile (\<lambda>c. c \<noteq> CHR '':'') (groups ! 3)
     \<and> target_ip e = (if groups ! 4 = ''-'' then None
                       else Some (takeWhile (\<lambda>c. c \<noteq> CHR '':'') (groups ! 4)))
     \<and> (\<forall>host port. groups ! 3 = host @ CHR '':'' # port \<and> CHR '':'' \<notin> set host
           \<longrightarrow> client_ip e = host)
     \<and> (\<forall>host port. groups ! 4 = host @ CHR '':'' # port \<and> CHR '':'' \<notin> set host
           \<longrightarrow> target_ip e = Some host)"
    using f t n by auto
qed

theorem host_before_first_colon_witness:
  "re_match_line line_no_backend
     = Some [''http'', ''2023-12-15T11:32:00.123456Z'', ''shop-elb'', ''10.0.0.4:54324'',
             ''-'', ''-1'', ''-1'', ''-1'', ''503'', ''-'', ''0'', ''0'',
             ''GET http://shop.example.com:80/cart/view HTTP/1.1'',
             ''Mozilla/5.0 (Macintosh)'', ''-'', ''-'']
   \<and> (\<exists>e. parse_log_line line_no_backend = Inr (Some e)
          \<and> client_ip e = ''10.0.0.4'' \<and> target_ip e = None)"
proof -
  let ?gs = "[''http'', ''2023-12-15T11:32:00.123456Z'', ''shop-elb'', ''10.0.0.4:54324'',
             ''-'', ''-1'', ''-1'', ''-1'', ''503'', ''-'', ''0'', ''0'',
             ''GET http://shop.example.com:80/cart/view HTTP/1.1'',
             ''Mozilla/5.0 (Macintosh)'', ''-'', ''-'']"
  have a: "re_match_line line_no_backend = Some ?gs" by code_simp
  define e where "e = \<lparr>timestamp = ''2023-12-15T11:32:00.123456Z'', client_ip = ''10.0.0.4'',
             target_ip = None, request_processing_time = Fin (- 1),
             backend_processing_time = Fin (- 1), response_processing_time = Fin (- 1),
             elb_status_code = Some 503, backend_status_code = None,
             received_bytes = 0, sent_bytes = 0,
             request = ''GET http://shop.example.com:80/cart/view HTTP/1.1'',
             user_agent = ''Mozilla/5.0 (Macintosh)'', ssl_cipher = [], ssl_protocol = []\<rparr>"
  have b: "parse_log_line line_no_backend = Inr (Some e)" unfolding e_def by code_simp
  have c: "?gs ! 3 = ''10.0.0.4'' @ CHR '':'' # ''54324''" by simp
  have d: "CHR '':'' \<notin> set ''10.0.0.4''" by simp
  have g4: "?gs ! 4 = ''-''" by simp
  from host_before_first_colon [of line_no_backend ?gs e] a b
  have t: "target_ip e = (if ?gs ! 4 = ''-'' then None
                       else Some (takeWhile (\<lambda>c. c \<noteq> CHR '':'') (?gs ! 4)))"
    and h: "\<forall>host port. ?gs ! 3 = host @ CHR '':'' # port \<and> CHR '':'' \<notin> set host
           \<longrightarrow> client_ip e = host"
    by blast+
  from h c d have "client_ip e = ''10.0.0.4''" by blast
  moreover from t have "target_ip e = None" unfolding g4 by simp
  ultimately have "client_ip e = ''10.0.0.4'' \<and> target_ip e = None" by simp
  with a b show ?thesis by blast
qed

section \<open>Properties of the ingestion loop\<close>

lemma classify_cases:
  "classify st e c = Inr st
   \<or> (\<exists>ce. status_code ce = c \<and> entry ce = e \<and> is_checkout_related (url ce)
         \<and> checkout_stage ce = categorize_checkout_stage (url ce)
         \<and> pattern_category ce = get_pattern_category (url ce)
         \<and> classify st e c
             = Inr (st\<lparr>checkout_requests := checkout_requests st @ [ce],
                       checkout_errors := checkout_errors st @ (if 500 \<le> c then [ce] else [])\<rparr>))"
proof -
  define u where "u = strip_char dquote (split_on CHR '' '' (request e) ! 1)"
  define ce where "ce = \<lparr>entry = e, status_code = c, url = u,
      checkout_stage = categorize_checkout_stage u, pattern_category = get_pattern_category u,
      is_bot = is_bot_traffic (user_agent e), is_mobile = is_mobile_traffic (user_agent e)\<rparr>"
  show ?thesis
  proof (cases "2 \<le> length (split_on CHR '' '' (request e)) \<and> is_checkout_related u")
    case False
    then have "classify st e c = Inr st"
      by (auto simp: classify_def Let_def py_index_def u_def)
    then show ?thesis by simp
  next
    case True
    then have "classify st e c
             = Inr (st\<lparr>checkout_requests := checkout_requests st @ [ce],
                       checkout_errors := checkout_errors st @ (if 500 \<le> c then [ce] else [])\<rparr>)"
      by (simp add: classify_def Let_def py_index_def u_def ce_def)
    moreover have "status_code ce = c \<and> entry ce = e \<and> is_checkout_related (url ce)
         \<and> checkout_stage ce = categorize_checkout_stage (url ce)
         \<and> pattern_category ce = get_pattern_category (url ce)"
      using True by (simp add: ce_def)
    ultimately show ?thesis by blast
  qed
qed

lemma classify_total: "\<exists>st'. classify st e c = Inr st'"
  using classify_cases [of st e c] by auto

lemma classify_merge:
  "classify (merge_analyzer a st) e c = e_bind (classify st e c) (\<lambda>s. Inr (merge_analyzer a s))"
  by (simp add: classify_def Let_def py_index_def merge_analyzer_def)

text \<open>
  What a line does depends on the line alone: it is only counted as a line, or its entry
  joins all requests and is classified.
\<close>

lemma process_line_shape:
  "\<exists>k. \<forall>st. process_line st line =
     (case k of
        None \<Rightarrow> Inr (st\<lparr>total_lines := total_lines st + 1\<rparr>)
      | Some (e, c) \<Rightarrow>
          classify (st\<lparr>total_lines := total_lines st + 1,
                       parsed_lines := parsed_lines st + 1,
                       all_requests := all_requests st @ [e]\<rparr>) e c)"
proof -
  obtain r where r: "parse_log_line line = Inr r" using parse_log_line_total by blast
  show ?thesis
  proof (cases r)
    case None
    with r show ?thesis by (intro exI [of _ None]) (simp add: process_line_def)
  next
    case (Some e)
    show ?thesis
    proof (cases "backend_status_code e")
      case None
      with r Some show ?thesis by (intro exI [of _ None]) (simp add: process_line_def)
    next
      case (Some c)
      show ?thesis
      proof (cases "c = 0")
        case True
        with r \<open>r = Some e\<close> Some show ?thesis
          by (intro exI [of _ None]) (simp add: process_line_def)
      next
        case False
        with r \<open>r = Some e\<close> Some show ?thesis
          by (intro exI [of _ "Some (e, c)"]) (simp add: process_line_def)
      qed
    qed
  qed
qed

lemma process_line_total: "\<exists>st'. process_line st line = Inr st'"
proof -
  obtain k where k: "\<forall>st. process_line st line =
     (case k of
        None \<Rightarrow> Inr (st\<lparr>total_lines := total_lines st + 1\<rparr>)
      | Some (e, c) \<Rightarrow>
          classify (st\<lparr>total_lines := total_lines st + 1,
                       parsed_lines := parsed_lines st + 1,
                       all_requests := all_requests st @ [e]\<rparr>) e c)"
    using process_line_shape by blast
  show ?thesis
  proof (cases k)
    case None
    with k show ?thesis by simp
  next
    case (Some p)
    obtain e c where "p = (e, c)" by (cases p)
    with k Some classify_total show ?thesis by simp
  qed
qed

lemma process_line_merge:
  "process_line (merge_analyzer a st) line
   = e_bind (process_line st line) (\<lambda>s. Inr (merge_analyzer a s))"
proof -
  obtain k where k: "\<forall>st. process_line st line =
     (case k of
        None \<Rightarrow> Inr (st\<lparr>total_lines := total_lines st + 1\<rparr>)
      | Some (e, c) \<Rightarrow>
          classify (st\<lparr>total_lines := total_lines st + 1,
                       parsed_lines := parsed_lines st + 1,
                       all_requests := all_requests st @ [e]\<rparr>) e c)"
    using process_line_shape by blast
  show ?thesis
  proof (cases k)
    case None
    with k show ?thesis by (simp add: merge_analyzer_def)
  next
    case (Some p)
    obtain e c where p: "p = (e, c)" by (cases p)
    have eq: "(merge_analyzer a st)
             \<lparr>total_lines := total_lines (merge_analyzer a st) + 1,
              parsed_lines := parsed_lines (merge_analyzer a st) + 1,
              all_requests := all_requests (merge_analyzer a st) @ [e]\<rparr>
           = merge_analyzer a
               (st\<lparr>total_lines := total_lines st + 1, parsed_lines := parsed_lines st + 1,
                   all_requests := all_requests st @ [e]\<rparr>)"
      by (simp add: merge_analyzer_def)
    from k Some p have "process_line (merge_analyzer a st) line
        = classify ((merge_analyzer a st)
             \<lparr>total_lines := total_lines (merge_analyzer a st) + 1,
              parsed_lines := parsed_lines (merge_analyzer a st) + 1,
              all_requests := all_requests (merge_analyzer a st) @ [e]\<rparr>) e c"
      by simp
    also have "\<dots> = e_bind (classify (st\<lparr>total_lines := total_lines st + 1,
                       parsed_lines := parsed_lines st + 1,
                       all_requests := all_requests st @ [e]\<rparr>) e c)
                     (\<lambda>s. Inr (merge_analyzer a s))"
      unfolding eq by (rule classify_merge)
    also have "\<dots> = e_bind (process_line st line) (\<lambda>s. Inr (merge_analyzer a s))"
      using k Some p by simp
    finally show ?thesis .
  qed
qed

lemma process_lines_merge:
  "process_lines (merge_analyzer a st) ls
   = e_bind (process_lines st ls) (\<lambda>s. Inr (merge_analyzer a s))"
proof (induction ls arbitrary: st)
  case Nil
  show ?case by simp
next
  case (Cons l ls)
  obtain s where s: "process_line st l = Inr s" using process_line_total by blast
  show ?case by (simp add: process_line_merge s Cons.IH)
qed

lemma process_lines_append:
  "process_lines st (xs @ ys) = e_bind (process_lines st xs) (\<lambda>s. process_lines s ys)"
proof (induction xs arbitrary: st)
  case Nil
  show ?case by simp
next
  case (Cons l ls)
  obtain s where s: "process_line st l = Inr s" using process_line_total by blast
  show ?case by (simp add: s Cons.IH)
qed

lemma process_lines_total: "\<exists>st'. process_lines st ls = Inr st'"
proof (induction ls arbitrary: st)
  case Nil
  show ?case by simp
next
  case (Cons l ls)
  obtain s where s: "process_line st l = Inr s" using process_line_total by blast
  with Cons.IH [of s] show ?case by simp
qed

lemma merge_analyzer_initial: "merge_analyzer a initial_analyzer = a"
  by (simp add: merge_analyzer_def initial_analyzer_def)

text \<open>Running over a concatenation is running over both parts and concatenating.\<close>

lemma analyze_logs_append:
  "\<exists>a b. analyze_logs xs = Inr a \<and> analyze_logs ys = Inr b
         \<and> analyze_logs (xs @ ys) = Inr (merge_analyzer a b)"
proof -
  obtain a where a: "analyze_logs xs = Inr a"
    using process_lines_total unfolding analyze_logs_def by blast
  obtain b where b: "analyze_logs ys = Inr b"
    using process_lines_total unfolding analyze_logs_def by blast
  have "process_lines a ys = process_lines (merge_analyzer a initial_analyzer) ys"
    by (simp add: merge_analyzer_initial)
  also have "\<dots> = Inr (merge_analyzer a b)"
    using b unfolding analyze_logs_def by (simp add: process_lines_merge)
  finally have "analyze_logs (xs @ ys) = Inr (merge_analyzer a b)"
    using a unfolding analyze_logs_def by (simp add: process_lines_append)
  with a b show ?thesis by blast
qed

text \<open>The errors are the checkout requests with a status of 500 or more, in order.\<close>

lemma classify_errors:
  assumes "checkout_errors st = filter (\<lambda>r. 500 \<le> status_code r) (checkout_requests st)"
    and "classify st e c = Inr st'"
  shows "checkout_errors st' = filter (\<lambda>r. 500 \<le> status_code r) (checkout_requests st')"
  using classify_cases [of st e c] assms by auto

lemma process_line_errors:
  assumes "checkout_errors st = filter (\<lambda>r. 500 \<le> status_code r) (checkout_requests st)"
    and "process_line st line = Inr st'"
  shows "checkout_errors st' = filter (\<lambda>r. 500 \<le> status_code r) (checkout_requests st')"
proof -
  obtain k where k: "\<forall>st. process_line st line =
     (case k of
        None \<Rightarrow> Inr (st\<lparr>total_lines := total_lines st + 1\<rparr>)
      | Some (e, c) \<Rightarrow>
          classify (st\<lparr>total_lines := total_lines st + 1,
                       parsed_lines := parsed_lines st + 1,
                       all_requests := all_requests st @ [e]\<rparr>) e c)"
    using process_line_shape by blast
  show ?thesis
  proof (cases k)
    case None
    with k assms show ?thesis by auto
  next
    case (Some p)
    obtain e c where p: "p = (e, c)" by (cases p)
    let ?s = "st\<lparr>total_lines := total_lines st + 1, parsed_lines := parsed_lines st + 1,
                 all_requests := all_requests st @ [e]\<rparr>"
    from k Some p assms(2) have "classify ?s e c = Inr st'" by simp
    moreover from assms(1)
    have "checkout_errors ?s = filter (\<lambda>r. 500 \<le> status_code r) (checkout_requests ?s)"
      by simp
    ultimately show ?thesis by (rule classify_errors [rotated])
  qed
qed

lemma process_lines_errors:
  assumes "checkout_errors st = filter (\<lambda>r. 500 \<le> status_code r) (checkout_requests st)"
    and "process_lines st ls = Inr st'"
  shows "checkout_errors st' = filter (\<lambda>r. 500 \<le> status_code r) (checkout_requests st')"
  using assms
proof (induction ls arbitrary: st)
  case Nil
  then show ?case by simp
next
  case (Cons l ls)
  obtain s where s: "process_line st l = Inr s" using process_line_total by blast
  from Cons.prems(2) s have "process_lines s ls = Inr st'" by simp
  with Cons.IH [OF process_line_errors [OF Cons.prems(1) s]] show ?case by simp
qed

lemma analyze_logs_errors:
  assumes "analyze_logs ls = Inr st"
  shows "checkout_errors st = filter (\<lambda>r. 500 \<le> status_code r) (checkout_requests st)"
  using process_lines_errors [of initial_analyzer ls st] assms
  by (simp add: analyze_logs_def initial_analyzer_def)

section \<open>Properties of the tables\<close>

subsection \<open>Counting into a dictionary\<close>

text \<open>
  After a counting loop, a key holds what the loop's updates for that key, applied in
  order to the previous value or the default, make of it; a key no item has is untouched.
\<close>

lemma fold_dd_apply:
  "fold (\<lambda>x d. dd_apply d z (key x) (f x)) xs d k =
     (if filter (\<lambda>x. key x = k) xs = [] then d k
      else Some (fold f (filter (\<lambda>x. key x = k) xs) (dd_get d z k)))"
proof (induction xs arbitrary: d)
  case Nil
  show ?case by simp
next
  case (Cons x xs)
  show ?case
    by (simp add: Cons.IH) (simp add: dd_apply_def dd_get_def)
qed

lemma fold_increment: "fold (\<lambda>x. Suc) xs v = v + length xs"
  by (induction xs arbitrary: v) simp_all

lemma fold_total: "fold (\<lambda>x s. s\<lparr>total := Suc (total s)\<rparr>) xs v = v\<lparr>total := total v + length xs\<rparr>"
  by (induction xs arbitrary: v) simp_all

lemma fold_checkout:
  "fold (\<lambda>x s. s\<lparr>checkout := Suc (checkout s)\<rparr>) xs v = v\<lparr>checkout := checkout v + length xs\<rparr>"
  by (induction xs arbitrary: v) simp_all

lemma fold_errors:
  "fold (\<lambda>x s. s\<lparr>errors := Suc (errors s)\<rparr>) xs v = v\<lparr>errors := errors v + length xs\<rparr>"
  by (induction xs arbitrary: v) simp_all

lemma fold_s_requests:
  "fold (\<lambda>x s. s\<lparr>s_requests := Suc (s_requests s)\<rparr>) xs v
   = v\<lparr>s_requests := s_requests v + length xs\<rparr>"
  by (induction xs arbitrary: v) simp_all

lemma fold_s_errors:
  "fold (\<lambda>x s. s\<lparr>s_errors := Suc (s_errors s)\<rparr>) xs v = v\<lparr>s_errors := s_errors v + length xs\<rparr>"
  by (induction xs arbitrary: v) simp_all

lemma fold_requests:
  "fold (\<lambda>x s. s\<lparr>requests := Suc (requests s)\<rparr>) xs v = v\<lparr>requests := requests v + length xs\<rparr>"
  by (induction xs arbitrary: v) simp_all

lemma fold_f_errors:
  "fold (\<lambda>e b. b\<lparr>f_errors := Suc (f_errors b), urls := dd_apply (urls b) 0 (g e) Suc\<rparr>)
     xs v
   = v\<lparr>f_errors := f_errors v + length xs,
       urls := fold (\<lambda>e m. dd_apply m 0 (g e) Suc) xs (urls v)\<rparr>"
  by (induction xs arbitrary: v) simp_all

lemma merge_map_apply:
  "merge_map add m1 m2 k =
     (case m1 k of None \<Rightarrow> m2 k
      | Some a \<Rightarrow> (case m2 k of None \<Rightarrow> Some a | Some b \<Rightarrow> Some (add a b)))"
  by (simp add: merge_map_def)

lemma merge_map_empty_right: "merge_map add m Map.empty = m"
  by (rule ext) (simp add: merge_map_apply split: option.splits)

lemma merge_map_empty_left: "merge_map add Map.empty m = m"
  by (rule ext) (simp add: merge_map_apply)

text \<open>A counter over a list: how often each key occurs, and no entry for a key that does not.\<close>

lemma counter_closed:
  "fold (\<lambda>x m. dd_apply m (0 :: nat) (key x) Suc) xs m k =
     (if filter (\<lambda>x. key x = k) xs = [] then m k
      else Some (dd_get m 0 k + length (filter (\<lambda>x. key x = k) xs)))"
  using fold_dd_apply [of 0 key "\<lambda>x. Suc" xs m k]
  by (simp add: fold_increment)

lemma counter_onto:
  "fold (\<lambda>x m. dd_apply m (0 :: nat) (key x) Suc) xs m
   = merge_map (+) m (fold (\<lambda>x m. dd_apply m (0 :: nat) (key x) Suc) xs Map.empty)"
  by (rule ext) (simp add: counter_closed merge_map_apply dd_get_def split: option.splits)

lemma counter_append:
  "fold (\<lambda>x m. dd_apply m (0 :: nat) (key x) Suc) ys
     (fold (\<lambda>x m. dd_apply m (0 :: nat) (key x) Suc) xs Map.empty)
   = merge_map (+) (fold (\<lambda>x m. dd_apply m (0 :: nat) (key x) Suc) xs Map.empty)
       (fold (\<lambda>x m. dd_apply m (0 :: nat) (key x) Suc) ys Map.empty)"
  by (rule counter_onto)

subsection \<open>The tables in closed form\<close>

lemma time_stats_closed:
  "time_stats key st k =
     (if filter (\<lambda>r. key (timestamp r) = k) (all_requests st) = []
         \<and> filter (\<lambda>r. key (timestamp (entry r)) = k) (checkout_requests st) = []
         \<and> filter (\<lambda>r. key (timestamp (entry r)) = k) (checkout_errors st) = []
      then None
      else Some \<lparr>total = length (filter (\<lambda>r. key (timestamp r) = k) (all_requests st)),
                 checkout = length (filter (\<lambda>r. key (timestamp (entry r)) = k)
                                      (checkout_requests st)),
                 errors = length (filter (\<lambda>r. key (timestamp (entry r)) = k)
                                    (checkout_errors st))\<rparr>)"
  unfolding time_stats_def Let_def
  by (simp add: fold_dd_apply [where key = "\<lambda>r. key (timestamp r)"]
      fold_dd_apply [where key = "\<lambda>r. key (timestamp (entry r))"]
      fold_total fold_checkout fold_errors dd_get_def zero_stats_def)

lemma stage_stats_closed:
  "stage_stats st k =
     (if filter (\<lambda>r. checkout_stage r = k) (checkout_requests st) = []
         \<and> filter (\<lambda>r. checkout_stage r = k) (checkout_errors st) = []
      then None
      else Some \<lparr>s_requests = length (filter (\<lambda>r. checkout_stage r = k) (checkout_requests st)),
                 s_errors = length (filter (\<lambda>r. checkout_stage r = k) (checkout_errors st))\<rparr>)"
  unfolding stage_stats_def Let_def
  by (simp add: fold_dd_apply [where key = checkout_stage]
      fold_s_requests fold_s_errors dd_get_def zero_stage_def)

lemma funnel_stats_closed:
  "funnel_stats st k =
     (if filter (\<lambda>r. pattern_category r = k) (checkout_requests st) = []
         \<and> filter (\<lambda>r. pattern_category r = k) (checkout_errors st) = []
      then None
      else Some \<lparr>requests = length (filter (\<lambda>r. pattern_category r = k) (checkout_requests st)),
                 f_errors = length (filter (\<lambda>r. pattern_category r = k) (checkout_errors st)),
                 urls = fold (\<lambda>e m. dd_apply m 0 (clean_url (url e)) Suc)
                          (filter (\<lambda>r. pattern_category r = k) (checkout_errors st))
                          Map.empty\<rparr>)"
  unfolding funnel_stats_def Let_def
  by (simp add: fold_dd_apply [where key = pattern_category]
      fold_requests fold_f_errors dd_get_def zero_bucket_def)

lemma stage_errors_closed:
  "stage_errors st k =
     (if filter (\<lambda>e. checkout_stage e = k) (checkout_errors st) = [] then None
      else Some (fold (\<lambda>e c. dd_apply c 0 (status_code e) Suc)
                   (filter (\<lambda>e. checkout_stage e = k) (checkout_errors st)) Map.empty))"
  unfolding stage_errors_def
  by (simp add: fold_dd_apply [where key = checkout_stage] dd_get_def)

subsection \<open>The tables of a concatenation\<close>

lemma time_stats_merge:
  "time_stats key (merge_analyzer a b)
   = merge_map add_day_stats (time_stats key a) (time_stats key b)"
  by (rule ext)
    (auto simp: time_stats_closed merge_map_apply merge_analyzer_def add_day_stats_def)

lemma stage_stats_merge:
  "stage_stats (merge_analyzer a b) = merge_map add_stage_bucket (stage_stats a) (stage_stats b)"
  by (rule ext)
    (auto simp: stage_stats_closed merge_map_apply merge_analyzer_def add_stage_bucket_def)

lemma funnel_stats_merge:
  "funnel_stats (merge_analyzer a b)
   = merge_map add_funnel_bucket (funnel_stats a) (funnel_stats b)"
  by (rule ext)
    (auto simp: funnel_stats_closed merge_map_apply merge_analyzer_def add_funnel_bucket_def
      counter_append merge_map_empty_right merge_map_empty_left)

lemma status_code_errors_merge:
  "status_code_errors (merge_analyzer a b)
   = merge_map (+) (status_code_errors a) (status_code_errors b)"
  by (simp add: status_code_errors_def merge_analyzer_def counter_append)

lemma stage_errors_merge:
  "stage_errors (merge_analyzer a b)
   = merge_map (merge_map (+)) (stage_errors a) (stage_errors b)"
  by (rule ext)
    (auto simp: stage_errors_closed merge_map_apply merge_analyzer_def counter_append
      merge_map_empty_right merge_map_empty_left)

lemma valid_times_closed:
  "fold (\<lambda>req samples. if pf_less (Fin 0) (total_time req) then samples @ [total_time req]
                         else samples) reqs acc
   = acc @ map total_time (filter (\<lambda>r. pf_less (Fin 0) (total_time r)) reqs)"
  by (induction reqs arbitrary: acc) simp_all

lemma valid_times_eq:
  "valid_times reqs = map total_time (filter (\<lambda>r. pf_less (Fin 0) (total_time r)) reqs)"
  by (simp add: valid_times_def valid_times_closed)

lemma latencies_merge:
  "success_times (merge_analyzer a b) = success_times a @ success_times b
   \<and> error_times (merge_analyzer a b) = error_times a @ error_times b"
  by (simp add: success_times_def error_times_def successful_requests_def valid_times_eq
      merge_analyzer_def)

lemma analyze_user_agents_merge:
  "analyze_user_agents (merge_analyzer a b)
   = add_traffic_counts (analyze_user_agents a) (analyze_user_agents b)"
  by (simp add: analyze_user_agents_def add_traffic_counts_def merge_analyzer_def)

lemma aggregate_merge:
  "aggregate (merge_analyzer a b) = merge_aggregate (aggregate a) (aggregate b)"
proof -
  have 1: "length (all_requests (merge_analyzer a b))
      = length (all_requests a) + length (all_requests b)"
    and 2: "length (checkout_requests (merge_analyzer a b))
      = length (checkout_requests a) + length (checkout_requests b)"
    and 3: "length (checkout_errors (merge_analyzer a b))
      = length (checkout_errors a) + length (checkout_errors b)"
    by (simp_all add: merge_analyzer_def)
  show ?thesis
    unfolding aggregate_def merge_aggregate_def
    by (simp add: 1 2 3 daily_stats_def hourly_stats_def time_stats_merge stage_stats_merge
        funnel_stats_merge status_code_errors_merge stage_errors_merge latencies_merge
        analyze_user_agents_merge)
qed

section \<open>Merging two runs\<close>

text \<open>
  Claim C9. Running the analyzer over the lines of a first part and over the lines of a
  second part and merging the two results (counters summed, tables merged key by key,
  latency sequences concatenated) gives the aggregate state of one run over the first part
  followed by the second; none of the three runs raises.
\<close>

theorem aggregate_of_concatenation:
  "\<exists>a b c. analyze_logs xs = Inr a \<and> analyze_logs ys = Inr b \<and> analyze_logs (xs @ ys) = Inr c
     \<and> c = merge_analyzer a b
     \<and> aggregate c = merge_aggregate (aggregate a) (aggregate b)"
proof -
  obtain a b where "analyze_logs xs = Inr a" "analyze_logs ys = Inr b"
    "analyze_logs (xs @ ys) = Inr (merge_analyzer a b)"
    using analyze_logs_append by blast
  then show ?thesis using aggregate_merge by blast
qed

text \<open>
  The two-line scenario of the specification: a request for \<open>/checkout/payment\<close> answered
  with 502 after a combined latency of half a second, and a request for \<open>/home\<close> answered
  with 200.
\<close>

lemma two_line_scenario:
  "map_sum id
     (\<lambda>st. ((total_requests (aggregate st), total_checkout_requests (aggregate st),
             total_checkout_errors (aggregate st)),
            analyze_overall_summary st,
            map checkout_stage (checkout_errors st),
            by_status_code (aggregate st) 502,
            error_latencies (aggregate st)))
     (analyze_logs [line_payment_502, line_home_200])
   = Inr ((2, 1, 1), Inr (100, 50), [''Payment Processing''], Some 1, [Fin (1 / 2)])"
  by code_simp

section \<open>Errors within requests\<close>

lemma rate_at_most_100:
  assumes "e \<le> n" "0 < n"
  shows "(of_nat e :: rat) / of_nat n * 100 \<le> 100"
proof -
  have "(of_nat e :: rat) \<le> of_nat n" using assms(1) by simp
  moreover have "(0 :: rat) < of_nat n" using assms(2) by simp
  ultimately have "(of_nat e :: rat) / of_nat n \<le> 1" by (simp add: divide_le_eq)
  then have "(of_nat e :: rat) / of_nat n * 100 \<le> 1 * 100"
    by (rule mult_right_mono) simp
  then show ?thesis by simp
qed

lemma length_filter_filter_le:
  "length (filter P (filter Q xs)) \<le> length (filter P xs)"
  by (induction xs) auto

text \<open>
  Claim C10. After a run, every checkout error is one of the checkout requests, with the
  labels it has there. So in every bucket of the pattern-category table and of the
  funnel-stage table the errors do not exceed the requests, the error rate does not exceed
  100 percent, and the branch that skips a bucket without requests skips no bucket at all,
  let alone one with errors.
\<close>

theorem bucket_errors_within_requests:
  "analyze_logs ls = Inr st \<longrightarrow>
     checkout_errors st = filter (\<lambda>r. 500 \<le> status_code r) (checkout_requests st)
     \<and> (funnel_stats st k = Some b \<longrightarrow>
          f_errors b \<le> requests b \<and> 0 < requests b
          \<and> pattern_row b = Some (Inr (of_nat (f_errors b) / of_nat (requests b) * 100))
          \<and> (of_nat (f_errors b) :: rat) / of_nat (requests b) * 100 \<le> 100)
     \<and> (stage_stats st k' = Some sb \<longrightarrow>
          s_errors sb \<le> s_requests sb \<and> 0 < s_requests sb
          \<and> stage_row sb = Inr (of_nat (s_errors sb) / of_nat (s_requests sb) * 100)
          \<and> (of_nat (s_errors sb) :: rat) / of_nat (s_requests sb) * 100 \<le> 100)"
proof
  assume run: "analyze_logs ls = Inr st"
  have inv: "checkout_errors st = filter (\<lambda>r. 500 \<le> status_code r) (checkout_requests st)"
    using run by (rule analyze_logs_errors)
  have f: "f_errors b \<le> requests b \<and> 0 < requests b
          \<and> pattern_row b = Some (Inr (of_nat (f_errors b) / of_nat (requests b) * 100))
          \<and> (of_nat (f_errors b) :: rat) / of_nat (requests b) * 100 \<le> 100"
    if b: "funnel_stats st k = Some b"
  proof -
    let ?rs = "filter (\<lambda>r. pattern_category r = k) (checkout_requests st)"
    let ?es = "filter (\<lambda>r. pattern_category r = k) (checkout_errors st)"
    from b have ne: "\<not> (?rs = [] \<and> ?es = [])"
      and r: "requests b = length ?rs" and e: "f_errors b = length ?es"
      unfolding funnel_stats_closed by (auto split: if_splits)
    have le: "length ?es \<le> length ?rs"
      unfolding inv by (rule length_filter_filter_le)
    with ne have pos: "0 < length ?rs" by (cases ?rs) auto
    from le pos r e rate_at_most_100 [of "f_errors b" "requests b"] show ?thesis
      by (simp add: pattern_row_cases)
  qed
  have s: "s_errors sb \<le> s_requests sb \<and> 0 < s_requests sb
          \<and> stage_row sb = Inr (of_nat (s_errors sb) / of_nat (s_requests sb) * 100)
          \<and> (of_nat (s_errors sb) :: rat) / of_nat (s_requests sb) * 100 \<le> 100"
    if b: "stage_stats st k' = Some sb"
  proof -
    let ?rs = "filter (\<lambda>r. checkout_stage r = k') (checkout_requests st)"
    let ?es = "filter (\<lambda>r. checkout_stage r = k') (checkout_errors st)"
    from b have ne: "\<not> (?rs = [] \<and> ?es = [])"
      and r: "s_requests sb = length ?rs" and e: "s_errors sb = length ?es"
      unfolding stage_stats_closed by (auto split: if_splits)
    have le: "length ?es \<le> length ?rs"
      unfolding inv by (rule length_filter_filter_le)
    with ne have pos: "0 < length ?rs" by (cases ?rs) auto
    from le pos r e rate_at_most_100 [of "s_errors sb" "s_requests sb"] show ?thesis
      by (simp add: stage_row_def py_truediv_pos)
  qed
  from inv f s
  show "checkout_errors st = filter (\<lambda>r. 500 \<le> status_code r) (checkout_requests st)
     \<and> (funnel_stats st k = Some b \<longrightarrow>
          f_errors b \<le> requests b \<and> 0 < requests b
          \<and> pattern_row b = Some (Inr (of_nat (f_errors b) / of_nat (requests b) * 100))
          \<and> (of_nat (f_errors b) :: rat) / of_nat (requests b) * 100 \<le> 100)
     \<and> (stage_stats st k' = Some sb \<longrightarrow>
          s_errors sb \<le> s_requests sb \<and> 0 < s_requests sb
          \<and> stage_row sb = Inr (of_nat (s_errors sb) / of_nat (s_requests sb) * 100)
          \<and> (of_nat (s_errors sb) :: rat) / of_nat (s_requests sb) * 100 \<le> 100)"
    by blast
qed

theorem bucket_errors_within_requests_witness:
  "\<exists>st b sb. analyze_logs [line_cart_200, line_payment_502] = Inr st
     \<and> funnel_stats st ''Checkout Process'' = Some b \<and> requests b = 1 \<and> f_errors b = 1
     \<and> pattern_row b = Some (Inr 100)
     \<and> stage_stats st ''Cart Operations'' = Some sb \<and> s_requests sb = 1 \<and> s_errors sb = 0
     \<and> stage_row sb = Inr 0"
proof -
  obtain st where st: "analyze_logs [line_cart_200, line_payment_502] = Inr st"
    using process_lines_total unfolding analyze_logs_def by blast
  have "map_sum id (\<lambda>st. (map_option (\<lambda>b. (requests b, f_errors b))
                              (funnel_stats st ''Checkout Process''),
                            map_option (\<lambda>b. (s_requests b, s_errors b))
                              (stage_stats st ''Cart Operations'')))
          (analyze_logs [line_cart_200, line_payment_502])
        = Inr (Some (1, 1), Some (1, 0))"
    by code_simp
  with st obtain b sb where b: "funnel_stats st ''Checkout Process'' = Some b"
    "requests b = 1" "f_errors b = 1"
    and sb: "stage_stats st ''Cart Operations'' = Some sb" "s_requests sb = 1" "s_errors sb = 0"
    by auto
  from bucket_errors_within_requests
         [of "[line_cart_200, line_payment_502]" st "''Checkout Process''" b
             "''Cart Operations''" sb] st b(1) sb(1)
  have "pattern_row b = Some (Inr (of_nat (f_errors b) / of_nat (requests b) * 100))"
    and "stage_row sb = Inr (of_nat (s_errors sb) / of_nat (s_requests sb) * 100)"
    by blast+
  with b sb have "pattern_row b = Some (Inr 100)" "stage_row sb = Inr 0" by simp_all
  with st b sb show ?thesis by blast
qed

section \<open>What is counted among all requests\<close>

lemma time_stats_total:
  "total (dd_get (time_stats key st) zero_stats k)
   = length (filter (\<lambda>r. key (timestamp r) = k) (all_requests st))"
  by (simp add: dd_get_def time_stats_closed zero_stats_def)

text \<open>
  Claim C1, as stated: every record of the input, also one without a backend status, adds
  one to the total of requests and to the totals of its date and hour. The line
  \<open>line_no_backend\<close> parses to an entry without backend status, and a run over it counts
  no request at all: the total is 0 and neither its date nor its hour has a bucket.
\<close>

theorem total_requests_counterexample:
  "parse_log_line line_no_backend = Inr (Some entry_no_backend)
   \<and> backend_status_code entry_no_backend = None
   \<and> analyze_logs [line_no_backend]
       = Inr \<lparr>all_requests = [], checkout_requests = [], checkout_errors = [],
              total_lines = 1, parsed_lines = 0\<rparr>
   \<and> total_requests (aggregate \<lparr>all_requests = [], checkout_requests = [], checkout_errors = [],
                                 total_lines = 1, parsed_lines = 0\<rparr>) = 0
   \<and> daily_stats \<lparr>all_requests = [], checkout_requests = [], checkout_errors = [],
                   total_lines = 1, parsed_lines = 0\<rparr>
        (date_of (timestamp entry_no_backend)) = None
   \<and> hourly_stats \<lparr>all_requests = [], checkout_requests = [], checkout_errors = [],
                    total_lines = 1, parsed_lines = 0\<rparr>
        (hour_of (timestamp entry_no_backend)) = None"
proof -
  have a: "parse_log_line line_no_backend = Inr (Some entry_no_backend)" by code_simp
  have b: "backend_status_code entry_no_backend = None" by (simp add: entry_no_backend_def)
  have c: "analyze_logs [line_no_backend]
       = Inr \<lparr>all_requests = [], checkout_requests = [], checkout_errors = [],
              total_lines = 1, parsed_lines = 0\<rparr>"
    by (simp add: analyze_logs_def process_line_def a b initial_analyzer_def)
  have d: "total_requests (aggregate \<lparr>all_requests = [], checkout_requests = [],
             checkout_errors = [], total_lines = 1, parsed_lines = 0\<rparr>) = 0"
    by (simp add: aggregate_def)
  have e: "time_stats key \<lparr>all_requests = [], checkout_requests = [], checkout_errors = [],
                   total_lines = 1, parsed_lines = 0\<rparr> k = None" for key k
    by (simp add: time_stats_closed)
  from a b c d e show ?thesis by (simp add: daily_stats_def hourly_stats_def)
qed

text \<open>
  Claim C1, amended. A line adds one to the total of requests and to the totals of its date
  and of its hour exactly when it parses to an entry whose backend status is a number other
  than 0, whether or not its URL is checkout-related; this happens before the relevance
  test. A line that does not parse, or whose entry has no backend status or the status 0,
  is counted as a line and changes nothing else.
\<close>

theorem analyzable_requests_counted:
  "(parse_log_line line = Inr (Some e) \<and> backend_status_code e = Some c \<and> c \<noteq> 0 \<longrightarrow>
      (\<exists>st'. process_line st line = Inr st'
         \<and> all_requests st' = all_requests st @ [e]
         \<and> total_requests (aggregate st') = total_requests (aggregate st) + 1
         \<and> total (dd_get (daily_stats st') zero_stats (date_of (timestamp e)))
             = total (dd_get (daily_stats st) zero_stats (date_of (timestamp e))) + 1
         \<and> total (dd_get (hourly_stats st') zero_stats (hour_of (timestamp e)))
             = total (dd_get (hourly_stats st) zero_stats (hour_of (timestamp e))) + 1))
   \<and> (parse_log_line line = Inr None
       \<or> parse_log_line line = Inr (Some e)
          \<and> (backend_status_code e = None \<or> backend_status_code e = Some 0)
      \<longrightarrow> process_line st line = Inr (st\<lparr>total_lines := total_lines st + 1\<rparr>))"
proof -
  have counted: "\<exists>st'. process_line st line = Inr st'
         \<and> all_requests st' = all_requests st @ [e]
         \<and> total_requests (aggregate st') = total_requests (aggregate st) + 1
         \<and> total (dd_get (daily_stats st') zero_stats (date_of (timestamp e)))
             = total (dd_get (daily_stats st) zero_stats (date_of (timestamp e))) + 1
         \<and> total (dd_get (hourly_stats st') zero_stats (hour_of (timestamp e)))
             = total (dd_get (hourly_stats st) zero_stats (hour_of (timestamp e))) + 1"
    if p: "parse_log_line line = Inr (Some e)" and s: "backend_status_code e = Some c"
      and n: "c \<noteq> 0"
  proof -
    let ?s = "st\<lparr>total_lines := total_lines st + 1, parsed_lines := parsed_lines st + 1,
                 all_requests := all_requests st @ [e]\<rparr>"
    have step: "process_line st line = classify ?s e c"
      using p s n by (simp add: process_line_def)
    obtain st' where st': "classify ?s e c = Inr st'" using classify_total by blast
    have all: "all_requests st' = all_requests st @ [e]"
      using classify_cases [of ?s e c] st' by auto
    from all have "total_requests (aggregate st') = total_requests (aggregate st) + 1"
      by (simp add: aggregate_def)
    moreover from all
    have "total (dd_get (time_stats key st') zero_stats (key (timestamp e)))
          = total (dd_get (time_stats key st) zero_stats (key (timestamp e))) + 1" for key
      by (simp add: time_stats_total)
    ultimately show ?thesis
      using step st' all by (simp add: daily_stats_def hourly_stats_def)
  qed
  have skipped: "process_line st line = Inr (st\<lparr>total_lines := total_lines st + 1\<rparr>)"
    if "parse_log_line line = Inr None
       \<or> parse_log_line line = Inr (Some e)
          \<and> (backend_status_code e = None \<or> backend_status_code e = Some 0)"
    using that by (auto simp: process_line_def)
  from counted skipped show ?thesis by blast
qed

theorem analyzable_requests_counted_witness:
  "parse_log_line line_home_200 = Inr (Some entry_home_200)
   \<and> backend_status_code entry_home_200 = Some 200
   \<and> is_checkout_related ''http://shop.example.com:80/home'' = False
   \<and> (\<exists>st'. process_line initial_analyzer line_home_200 = Inr st'
         \<and> all_requests st' = [entry_home_200]
         \<and> total_requests (aggregate st') = 1)
   \<and> parse_log_line line_no_backend = Inr (Some entry_no_backend)
   \<and> backend_status_code entry_no_backend = None
   \<and> process_line initial_analyzer line_no_backend
       = Inr (initial_analyzer\<lparr>total_lines := total_lines initial_analyzer + 1\<rparr>)"
proof -
  have a: "parse_log_line line_home_200 = Inr (Some entry_home_200)" by code_simp
  have b: "backend_status_code entry_home_200 = Some 200" by (simp add: entry_home_200_def)
  have c: "is_checkout_related ''http://shop.example.com:80/home'' = False" by code_simp
  have d: "parse_log_line line_no_backend = Inr (Some entry_no_backend)" by code_simp
  have e: "backend_status_code entry_no_backend = None" by (simp add: entry_no_backend_def)
  have i: "all_requests initial_analyzer = []" "total_requests (aggregate initial_analyzer) = 0"
    by (simp_all add: initial_analyzer_def aggregate_def)
  from analyzable_requests_counted [of line_home_200 entry_home_200 200 initial_analyzer] a b
  have "\<exists>st'. process_line initial_analyzer line_home_200 = Inr st'
         \<and> all_requests st' = all_requests initial_analyzer @ [entry_home_200]
         \<and> total_requests (aggregate st') = total_requests (aggregate initial_analyzer) + 1"
    by auto
  then have f: "\<exists>st'. process_line initial_analyzer line_home_200 = Inr st'
         \<and> all_requests st' = [entry_home_200] \<and> total_requests (aggregate st') = 1"
    by (simp add: i)
  from analyzable_requests_counted [of line_no_backend entry_no_backend 0 initial_analyzer] d e
  have g: "process_line initial_analyzer line_no_backend
       = Inr (initial_analyzer\<lparr>total_lines := total_lines initial_analyzer + 1\<rparr>)"
    by blast
  from a b c d e f g show ?thesis by blast
qed

section \<open>Latency samples\<close>

lemma success_times_eq:
  "success_times st
   = map total_time (filter (\<lambda>r. status_code r < 400 \<and> pf_less (Fin 0) (total_time r))
                       (checkout_requests st))"
  by (simp add: success_times_def successful_requests_def valid_times_eq conj_commute)

text \<open>
  Claim C2, as stated: a checkout request that is not an error (status below 500) and has
  a positive combined latency contributes that latency to the success samples. The line
  \<open>line_cart_404\<close> gives a checkout request with status 404 and combined latency 1/2, and
  the success samples of the run are empty.
\<close>

theorem success_sample_counterexample:
  "analyze_logs [line_cart_404]
     = Inr \<lparr>all_requests = [entry_cart_404],
            checkout_requests = [cart_view entry_cart_404 404],
            checkout_errors = [], total_lines = 1, parsed_lines = 1\<rparr>
   \<and> status_code (cart_view entry_cart_404 404) < 500
   \<and> total_time (cart_view entry_cart_404 404) = Fin (1 / 2)
   \<and> pf_less (Fin 0) (Fin (1 / 2))
   \<and> success_times \<lparr>all_requests = [entry_cart_404],
                     checkout_requests = [cart_view entry_cart_404 404],
                     checkout_errors = [], total_lines = 1, parsed_lines = 1\<rparr> = []"
proof -
  have a: "analyze_logs [line_cart_404]
     = Inr \<lparr>all_requests = [entry_cart_404],
            checkout_requests = [cart_view entry_cart_404 404],
            checkout_errors = [], total_lines = 1, parsed_lines = 1\<rparr>"
    by code_simp
  have b: "status_code (cart_view entry_cart_404 404) < 500" by (simp add: cart_view_def)
  have c: "total_time (cart_view entry_cart_404 404) = Fin (1 / 2)"
    by (simp add: total_time_def cart_view_def entry_cart_404_def)
  have d: "success_times \<lparr>all_requests = [entry_cart_404],
                     checkout_requests = [cart_view entry_cart_404 404],
                     checkout_errors = [], total_lines = 1, parsed_lines = 1\<rparr> = []"
    by (simp add: success_times_eq cart_view_def)
  from a b c d show ?thesis by simp
qed

text \<open>
  Claim C2, amended. The success samples are the combined latencies, in order, of the
  checkout requests whose backend status is below 400 and whose combined latency is
  positive; a request with a status of 400 or more is not among the successful ones.
\<close>

theorem success_samples:
  "success_times st
     = map total_time (filter (\<lambda>r. status_code r < 400 \<and> pf_less (Fin 0) (total_time r))
                         (checkout_requests st))
   \<and> (r \<in> set (checkout_requests st) \<and> status_code r < 400 \<and> pf_less (Fin 0) (total_time r)
        \<longrightarrow> total_time r \<in> set (success_times st))
   \<and> (400 \<le> status_code r \<longrightarrow> r \<notin> set (successful_requests st))"
proof -
  have a: "total_time r \<in> set (success_times st)"
    if "r \<in> set (checkout_requests st) \<and> status_code r < 400 \<and> pf_less (Fin 0) (total_time r)"
    using that unfolding success_times_eq by auto
  have b: "r \<notin> set (successful_requests st)" if "400 \<le> status_code r"
    using that by (auto simp: successful_requests_def)
  from a b success_times_eq [of st] show ?thesis by blast
qed


theorem success_samples_witness:
  "analyze_logs [line_cart_200]
     = Inr \<lparr>all_requests = [entry_cart_200],
            checkout_requests = [cart_view entry_cart_200 200],
            checkout_errors = [], total_lines = 1, parsed_lines = 1\<rparr>
   \<and> status_code (cart_view entry_cart_200 200) < 400
   \<and> total_time (cart_view entry_cart_200 200) = Fin (1 / 2)
   \<and> pf_less (Fin 0) (total_time (cart_view entry_cart_200 200))
   \<and> total_time (cart_view entry_cart_200 200)
       \<in> set (success_times \<lparr>all_requests = [entry_cart_200],
                     checkout_requests = [cart_view entry_cart_200 200],
                     checkout_errors = [], total_lines = 1, parsed_lines = 1\<rparr>)
   \<and> 400 \<le> status_code (cart_view entry_cart_404 404)
   \<and> cart_view entry_cart_404 404
       \<notin> set (successful_requests \<lparr>all_requests = [entry_cart_404],
                     checkout_requests = [cart_view entry_cart_404 404],
                     checkout_errors = [], total_lines = 1, parsed_lines = 1\<rparr>)"
proof -
  let ?st = "\<lparr>all_requests = [entry_cart_200],
            checkout_requests = [cart_view entry_cart_200 200],
            checkout_errors = [], total_lines = 1, parsed_lines = 1\<rparr>"
  let ?st' = "\<lparr>all_requests = [entry_cart_404],
            checkout_requests = [cart_view entry_cart_404 404],
            checkout_errors = [], total_lines = 1, parsed_lines = 1\<rparr>"
  have a: "analyze_logs [line_cart_200] = Inr ?st" by code_simp
  have b: "cart_view entry_cart_200 200 \<in> set (checkout_requests ?st)" by simp
  have c: "status_code (cart_view entry_cart_200 200) < 400" by (simp add: cart_view_def)
  have d: "total_time (cart_view entry_cart_200 200) = Fin (1 / 2)"
    by (simp add: total_time_def cart_view_def entry_cart_200_def)
  then have e: "pf_less (Fin 0) (total_time (cart_view entry_cart_200 200))" by simp
  have f: "400 \<le> status_code (cart_view entry_cart_404 404)" by (simp add: cart_view_def)
  from success_samples [of ?st "cart_view entry_cart_200 200"] b c e
  have g: "total_time (cart_view entry_cart_200 200) \<in> set (success_times ?st)" by blast
  from success_samples [of ?st' "cart_view entry_cart_404 404"] f
  have h: "cart_view entry_cart_404 404 \<notin> set (successful_requests ?st')" by blast
  from a c d e f g h show ?thesis by blast
qed











section \<open>The day-over-day trend\<close>

subsection \<open>Rounding to double precision\<close>

lemma round_half_even_error: "\<bar>of_int (round_half_even x) - x\<bar> \<le> 1 / 2"
proof -
  have "of_int \<lfloor>x\<rfloor> \<le> x" "x < of_int \<lfloor>x\<rfloor> + 1" by linarith+
  then show ?thesis
    unfolding round_half_even_def Let_def by (auto simp: abs_le_iff)
qed

lemma round_half_even_nonneg: "0 \<le> x \<Longrightarrow> 0 \<le> round_half_even x"
  unfolding round_half_even_def Let_def by (auto simp: zero_le_floor intro: add_nonneg_nonneg)

lemma ilog2_bounds:
  assumes "0 < x"
  shows "2 powi (ilog2 x) \<le> x \<and> x < 2 powi (ilog2 x + 1)"
proof -
  obtain a b where q: "quotient_of x = (a, b)" by (cases "quotient_of x")
  then have b: "0 < b" and x: "x = of_int a / of_int b"
    using quotient_of_denom_pos [of x a b] quotient_of_div [of x a b] by auto
  with assms have a: "0 < a" by (simp add: zero_less_divide_iff)
  let ?g = "bitlen a - bitlen b"
  have la: "1 \<le> bitlen a" and lb: "1 \<le> bitlen b"
    using a b by (auto simp: bitlen_alt_def)
  have "2 ^ nat (bitlen a - 1) \<le> a" "b < 2 ^ nat (bitlen b)"
    "a < 2 ^ nat (bitlen a)" "2 ^ nat (bitlen b - 1) \<le> b"
    using bitlen_bounds [OF a] bitlen_bounds [OF b] by auto
  then have "(of_int (2 ^ nat (bitlen a - 1)) :: rat) \<le> of_int a"
    "(of_int b :: rat) \<le> of_int (2 ^ nat (bitlen b))"
    "(of_int a :: rat) < of_int (2 ^ nat (bitlen a))"
    "(of_int (2 ^ nat (bitlen b - 1)) :: rat) \<le> of_int b"
    by (simp_all only: of_int_le_iff of_int_less_iff less_imp_le)
  then have 1: "(2::rat) powi (bitlen a - 1) \<le> of_int a"
    and 2: "(of_int b :: rat) \<le> 2 powi (bitlen b)"
    and 3: "(of_int a :: rat) < 2 powi (bitlen a)"
    and 4: "(2::rat) powi (bitlen b - 1) \<le> of_int b"
    using la lb by (simp_all add: power_int_def)
  have "(2::rat) powi (?g - 1) = 2 powi (bitlen a - 1) / 2 powi (bitlen b)"
    by (simp add: power_int_diff)
  also have "\<dots> \<le> of_int a / of_int b"
    using 1 2 a b by (intro frac_le) simp_all
  finally have low: "(2::rat) powi (?g - 1) \<le> x" by (simp add: x)
  have "of_int a / of_int b < (2::rat) powi (bitlen a) / 2 powi (bitlen b - 1)"
    using 3 4 a by (intro frac_less) simp_all
  also have "\<dots> = 2 powi (bitlen a - (bitlen b - 1))"
    by (rule power_int_diff [symmetric]) simp
  also have "bitlen a - (bitlen b - 1) = ?g + 1" by simp
  finally have high: "x < 2 powi (?g + 1)" by (simp add: x)
  show ?thesis
    using low high q by (simp add: ilog2_def Let_def not_le)
qed

lemma ilog2_less:
  assumes "0 < x" "x < 2 powi n"
  shows "ilog2 x < n"
proof (rule ccontr)
  assume "\<not> ilog2 x < n"
  then have "n \<le> ilog2 x" by simp
  then have "(2::rat) powi n \<le> 2 powi (ilog2 x)" by (intro power_int_increasing) simp_all
  with ilog2_bounds [OF assms(1)] assms(2) show False by linarith
qed

lemma dbl_round_bound:
  assumes "\<bar>x\<bar> < 2 powi n" and "n \<le> 1023" and "- 1021 \<le> n"
  shows "\<exists>y. dbl_round x = Fin y \<and> \<bar>y - x\<bar> \<le> 2 powi (n - 54) \<and> (0 \<le> x \<longrightarrow> 0 \<le> y)"
proof (cases "x = 0")
  case True
  then show ?thesis by (simp add: dbl_round_def)
next
  case False
  define e where "e = max (ilog2 \<bar>x\<bar>) (- 1022)"
  define u :: rat where "u = 2 powi (e - 52)"
  define k where "k = round_half_even (\<bar>x\<bar> / u)"
  have m: "0 < \<bar>x\<bar>" using False by simp
  have e: "e \<le> n - 1"
    using ilog2_less [OF m assms(1)] assms(3) by (simp add: e_def)
  have u: "0 < u" by (simp add: u_def)
  have "u \<le> 2 powi (n - 53)"
    unfolding u_def using e by (intro power_int_increasing) simp_all
  also have "(2::rat) powi (n - 53) = 2 * 2 powi (n - 54)"
    using power_int_add_1' [of "2::rat" "n - 54"] by simp
  finally have u_le: "u / 2 \<le> 2 powi (n - 54)" by simp
  have k: "0 \<le> k"
    unfolding k_def using m u by (intro round_half_even_nonneg) simp
  have "of_int k * u - \<bar>x\<bar> = (of_int k - \<bar>x\<bar> / u) * u"
    using u by (simp add: left_diff_distrib)
  then have "\<bar>of_int k * u - \<bar>x\<bar>\<bar> = \<bar>of_int k - \<bar>x\<bar> / u\<bar> * u"
    using u by (simp add: abs_mult)
  also have "\<dots> \<le> 1 / 2 * u"
    using round_half_even_error [of "\<bar>x\<bar> / u"] u unfolding k_def
    by (intro mult_right_mono) simp_all
  finally have err: "\<bar>of_int k * u - \<bar>x\<bar>\<bar> \<le> 2 powi (n - 54)"
    using u_le by simp
  have r: "dbl_round x = Fin (sgn x * (of_int k * u))"
    using False e assms(2) by (simp add: dbl_round_def Let_def e_def [symmetric] u_def [symmetric] k_def [symmetric])
  have "\<bar>sgn x * (of_int k * u) - x\<bar> = \<bar>sgn x * (of_int k * u - \<bar>x\<bar>)\<bar>"
    by (simp add: right_diff_distrib sgn_mult_abs)
  also have "\<dots> = \<bar>of_int k * u - \<bar>x\<bar>\<bar>"
    using False by (simp add: abs_mult abs_sgn_eq)
  finally have "\<bar>sgn x * (of_int k * u) - x\<bar> \<le> 2 powi (n - 54)"
    using err by simp
  moreover have "0 \<le> x \<longrightarrow> 0 \<le> sgn x * (of_int k * u)"
    using k u by (simp add: sgn_if)
  ultimately show ?thesis using r by blast
qed

lemma dbl_round_below_2:
  assumes "\<bar>x\<bar> < 2"
  shows "\<exists>y. dbl_round x = Fin y \<and> \<bar>y - x\<bar> \<le> 1 / 2 ^ 53 \<and> (0 \<le> x \<longrightarrow> 0 \<le> y)"
proof -
  have "\<bar>x\<bar> < 2 powi 1" using assms by simp
  moreover have "(2::rat) powi (1 - 54) = 1 / 2 ^ 53" by (simp add: power_int_def field_simps)
  ultimately show ?thesis using dbl_round_bound [of x 1] by simp
qed

lemma dbl_round_below_128:
  assumes "\<bar>x\<bar> < 128"
  shows "\<exists>y. dbl_round x = Fin y \<and> \<bar>y - x\<bar> \<le> 1 / 2 ^ 47 \<and> (0 \<le> x \<longrightarrow> 0 \<le> y)"
proof -
  have "\<bar>x\<bar> < 2 powi 7" using assms by simp
  moreover have "(2::rat) powi (7 - 54) = 1 / 2 ^ 47" by (simp add: power_int_def field_simps)
  ultimately show ?thesis using dbl_round_bound [of x 7] by simp
qed

text \<open>
  Values of \<open>dbl_round\<close>: 0.1 and 0.035 with the exact values Python prints for them, two
  ties, which go to the even significand, and a negative number.
\<close>

lemma dbl_round_values:
  "dbl_round (1 / 10) = Fin (3602879701896397 / 36028797018963968)"
  "dbl_round (7 / 200) = Fin (1261007895663739 / 36028797018963968)"
  "dbl_round (1 + 1 / 2 ^ 53) = Fin 1"
  "dbl_round (1 + 3 / 2 ^ 53) = Fin (1 + 1 / 2 ^ 51)"
  "dbl_round (- (7 / 2)) = Fin (- (7 / 2))"
  by code_simp+

subsection \<open>The rate of a day and its label, up to rounding\<close>

lemma fl_add_half: "fl_add (Fin p) (Fin (1 / 2)) = dbl_round (p + 1 / 2)"
  by (simp add: fl_add_def)

lemma fl_sub_half: "fl_sub (Fin p) (Fin (1 / 2)) = dbl_round (p - 1 / 2)"
  by (simp add: fl_sub_def fl_add_def)

lemma daily_error_rate_bound:
  assumes "errors s \<le> checkout s"
  shows "\<exists>r. daily_error_rate s = Inr (Fin r) \<and> \<bar>r - exact_error_rate s\<bar> \<le> 1 / 2 ^ 45
             \<and> 0 \<le> r \<and> r \<le> 101"
proof (cases "checkout s = 0")
  case True
  then show ?thesis by (simp add: daily_error_rate_def exact_error_rate_def)
next
  case False
  define q0 :: rat where "q0 = of_nat (errors s) / of_nat (checkout s)"
  define d53 :: rat where "d53 = 1 / 2 ^ 53"
  define d47 :: rat where "d47 = 1 / 2 ^ 47"
  define d45 :: rat where "d45 = 1 / 2 ^ 45"
  have d: "0 < d53" "d53 < 1 / 100" "d47 + 100 * d53 \<le> d45" "d45 < 1"
    by (simp_all add: d53_def d47_def d45_def)
  have c: "0 < checkout s" using False by simp
  have q0: "0 \<le> q0" "q0 \<le> 1"
    using assms c by (simp_all add: q0_def)
  then have "\<bar>q0\<bar> < 2" by simp
  from dbl_round_below_2 [OF this] obtain q
    where q: "dbl_round q0 = Fin q" "0 \<le> q" and qe: "\<bar>q - q0\<bar> \<le> d53"
    unfolding d53_def using q0(1) by auto
  have "q * 100 < 128" using qe q0(2) d(1,2) by linarith
  then have "\<bar>q * 100\<bar> < 128" using q(2) by simp
  from dbl_round_below_128 [OF this] obtain r
    where r: "dbl_round (q * 100) = Fin r" "0 \<le> r" and re: "\<bar>r - q * 100\<bar> \<le> d47"
    unfolding d47_def using q(2) by auto
  have "daily_error_rate s = Inr (Fin r)"
    using c q(1) r(1) by (simp add: daily_error_rate_def fl_truediv_def fl_times_def q0_def)
  moreover have "exact_error_rate s = q0 * 100"
    using c by (simp add: exact_error_rate_def q0_def)
  moreover have "\<bar>r - q0 * 100\<bar> \<le> d45" "r \<le> 101"
    using qe re q0 d by linarith+
  ultimately show ?thesis using r(2) unfolding d45_def by simp
qed

lemma trend_of_bound:
  assumes "0 \<le> p" "p \<le> 101" "\<bar>p - P\<bar> \<le> 1 / 2 ^ 45" "\<bar>r - R\<bar> \<le> 1 / 2 ^ 45"
    and "1 / 2 ^ 40 < \<bar>\<bar>R - P\<bar> - 1 / 2\<bar>"
  shows "trend_of (Some (Fin p)) (Fin r) = deadband_label P R"
proof -
  define d47 :: rat where "d47 = 1 / 2 ^ 47"
  define d45 :: rat where "d45 = 1 / 2 ^ 45"
  define e40 :: rat where "e40 = 1 / 2 ^ 40"
  have d: "0 < d47" "0 < d45" "2 * d45 + d47 < e40" "e40 < 1 / 4"
    by (simp_all add: d47_def d45_def e40_def)
  note a = assms(3-5) [folded d45_def e40_def]
  have "\<bar>p + 1 / 2\<bar> < 128" "\<bar>p - 1 / 2\<bar> < 128"
    using assms(1,2) by (simp_all add: abs_less_iff)
  from dbl_round_below_128 [OF this(1)] dbl_round_below_128 [OF this(2)] obtain hi lo
    where hi: "dbl_round (p + 1 / 2) = Fin hi" and hie: "\<bar>hi - (p + 1 / 2)\<bar> \<le> d47"
      and lo: "dbl_round (p - 1 / 2) = Fin lo" and loe: "\<bar>lo - (p - 1 / 2)\<bar> \<le> d47"
    unfolding d47_def by auto
  have t: "trend_of (Some (Fin p)) (Fin r)
           = (if hi < r then ''WORSE'' else if r < lo then ''BETTER'' else ''STABLE'')"
    by (simp add: trend_of_def fl_add_half fl_sub_half hi lo)
  consider "1 / 2 + e40 < R - P" | "R - P < - (1 / 2 + e40)" | "\<bar>R - P\<bar> < 1 / 2 - e40"
    using a(3) by linarith
  then show ?thesis
  proof cases
    case 1
    then have "hi < r" "1 / 2 < R - P" using hie a d by linarith+
    then show ?thesis unfolding t deadband_label_def by simp
  next
    case 2
    then have "r < lo" "\<not> hi < r" "R - P < - (1 / 2)" "\<not> 1 / 2 < R - P"
      using hie loe a d by linarith+
    then show ?thesis unfolding t deadband_label_def by simp
  next
    case 3
    then have "\<not> hi < r" "\<not> r < lo" "\<not> R - P < - (1 / 2)" "\<not> 1 / 2 < R - P"
      using hie loe a d by linarith+
    then show ?thesis unfolding t deadband_label_def by simp
  qed
qed

lemma daily_rows_rows:
  assumes "\<forall>s \<in> set days. errors s \<le> checkout s"
  shows "\<exists>rows. daily_rows prev days = Inr rows \<and> length rows = length days
     \<and> (\<forall>i < length days. daily_error_rate (days ! i) = Inr (fst (rows ! i))
          \<and> snd (rows ! i)
              = trend_of (if i = 0 then prev else Some (fst (rows ! (i - 1)))) (fst (rows ! i)))"
  using assms
proof (induction days arbitrary: prev)
  case Nil
  then show ?case by simp
next
  case (Cons s rest)
  from Cons.prems daily_error_rate_bound [of s] obtain v where v: "daily_error_rate s = Inr v"
    by auto
  from Cons.IH [of "Some v"] Cons.prems obtain rows'
    where rows': "daily_rows (Some v) rest = Inr rows'" "length rows' = length rest"
      and nth: "\<And>i. i < length rest \<Longrightarrow> daily_error_rate (rest ! i) = Inr (fst (rows' ! i))
          \<and> snd (rows' ! i)
              = trend_of (if i = 0 then Some v else Some (fst (rows' ! (i - 1)))) (fst (rows' ! i))"
    by auto
  let ?rows = "(v, trend_of prev v) # rows'"
  have "daily_rows prev (s # rest) = Inr ?rows"
    by (simp add: v rows'(1))
  moreover have "length ?rows = length (s # rest)" by (simp add: rows'(2))
  moreover have "daily_error_rate ((s # rest) ! i) = Inr (fst (?rows ! i))
          \<and> snd (?rows ! i)
              = trend_of (if i = 0 then prev else Some (fst (?rows ! (i - 1)))) (fst (?rows ! i))"
    if "i < length (s # rest)" for i
  proof (cases i)
    case 0
    then show ?thesis by (simp add: v)
  next
    case (Suc j)
    with that have "j < length rest" by simp
    from nth [OF this] show ?thesis
      unfolding Suc by (cases j) simp_all
  qed
  ultimately show ?case by blast
qed

text \<open>After a run, the checkout errors of a date or hour are among its checkout requests.\<close>

lemma time_bucket_errors_le:
  assumes "analyze_logs ls = Inr st"
  shows "errors (dd_get (time_stats key st) zero_stats k)
         \<le> checkout (dd_get (time_stats key st) zero_stats k)"
proof -
  have inv: "checkout_errors st = filter (\<lambda>r. 500 \<le> status_code r) (checkout_requests st)"
    using assms by (rule analyze_logs_errors)
  have "length (filter (\<lambda>r. key (timestamp (entry r)) = k) (checkout_errors st))
        \<le> length (filter (\<lambda>r. key (timestamp (entry r)) = k) (checkout_requests st))"
    unfolding inv by (rule length_filter_filter_le)
  then show ?thesis
    by (simp add: dd_get_def time_stats_closed zero_stats_def)
qed

subsection \<open>Evaluation of two tables\<close>

lemma rate_6_of_200:
  "daily_error_rate \<lparr>total = 1000, checkout = 200, errors = 6\<rparr> = Inr (Fin 3)"
proof -
  have "fl_truediv 6 200 = Inr (1080863910568919 / 36028797018963968)" by code_simp
  moreover have "fl_times (1080863910568919 / 36028797018963968) 100 = Fin 3" by code_simp
  ultimately show ?thesis by (simp add: daily_error_rate_def)
qed

lemma rate_7_of_200:
  "daily_error_rate \<lparr>total = 1000, checkout = 200, errors = 7\<rparr>
   = Inr (Fin (7881299347898369 / 2251799813685248))"
proof -
  have "fl_truediv 7 200 = Inr (1261007895663739 / 36028797018963968)" by code_simp
  moreover have "fl_times (1261007895663739 / 36028797018963968) 100
                 = Fin (7881299347898369 / 2251799813685248)" by code_simp
  ultimately show ?thesis by (simp add: daily_error_rate_def)
qed

lemma rate_10_of_1000:
  "daily_error_rate \<lparr>total = 5000, checkout = 1000, errors = 10\<rparr> = Inr (Fin 1)"
proof -
  have "fl_truediv 10 1000 = Inr (5764607523034235 / 576460752303423488)" by code_simp
  moreover have "fl_times (5764607523034235 / 576460752303423488) 100 = Fin 1" by code_simp
  ultimately show ?thesis by (simp add: daily_error_rate_def)
qed

lemma rate_13_of_1000:
  "daily_error_rate \<lparr>total = 5000, checkout = 1000, errors = 13\<rparr>
   = Inr (Fin (5854679515581645 / 4503599627370496))"
proof -
  have "fl_truediv 13 1000 = Inr (7493989779944505 / 576460752303423488)" by code_simp
  moreover have "fl_times (7493989779944505 / 576460752303423488) 100
                 = Fin (5854679515581645 / 4503599627370496)" by code_simp
  ultimately show ?thesis by (simp add: daily_error_rate_def)
qed

lemma rate_7_of_1000:
  "daily_error_rate \<lparr>total = 5000, checkout = 1000, errors = 7\<rparr>
   = Inr (Fin (6305039478318695 / 9007199254740992))"
proof -
  have "fl_truediv 7 1000 = Inr (8070450532247929 / 1152921504606846976)" by code_simp
  moreover have "fl_times (8070450532247929 / 1152921504606846976) 100
                 = Fin (6305039478318695 / 9007199254740992)" by code_simp
  ultimately show ?thesis by (simp add: daily_error_rate_def)
qed

lemma rate_3_of_1000:
  "daily_error_rate \<lparr>total = 5000, checkout = 1000, errors = 3\<rparr>
   = Inr (Fin (5404319552844595 / 18014398509481984))"
proof -
  have "fl_truediv 3 1000 = Inr (3458764513820541 / 1152921504606846976)" by code_simp
  moreover have "fl_times (3458764513820541 / 1152921504606846976) 100
                 = Fin (5404319552844595 / 18014398509481984)" by code_simp
  ultimately show ?thesis by (simp add: daily_error_rate_def)
qed

lemma rate_8_of_1000:
  "daily_error_rate \<lparr>total = 5000, checkout = 1000, errors = 8\<rparr>
   = Inr (Fin (3602879701896397 / 4503599627370496))"
proof -
  have "fl_truediv 8 1000 = Inr (1152921504606847 / 144115188075855872)" by code_simp
  moreover have "fl_times (1152921504606847 / 144115188075855872) 100
                 = Fin (3602879701896397 / 4503599627370496)" by code_simp
  ultimately show ?thesis by (simp add: daily_error_rate_def)
qed

lemma trend_3_to_8_tenths:
  "trend_of (Some (Fin (5404319552844595 / 18014398509481984)))
     (Fin (3602879701896397 / 4503599627370496)) = ''STABLE''"
  by code_simp

lemma trend_3_to_7_halves:
  "trend_of (Some (Fin 3)) (Fin (7881299347898369 / 2251799813685248)) = ''WORSE''"
  by code_simp

lemma trend_1_to_13_tenths:
  "trend_of (Some (Fin 1)) (Fin (5854679515581645 / 4503599627370496)) = ''STABLE''"
  by code_simp

lemma trend_13_tenths_again:
  "trend_of (Some (Fin (5854679515581645 / 4503599627370496)))
     (Fin (5854679515581645 / 4503599627370496)) = ''STABLE''"
  by code_simp

lemma trend_13_to_7_tenths:
  "trend_of (Some (Fin (5854679515581645 / 4503599627370496)))
     (Fin (6305039478318695 / 9007199254740992)) = ''BETTER''"
  by code_simp

lemma trend_of_None: "trend_of None cur = []"
  by (simp add: trend_of_def)

lemma daily_rows_10_13_13_7:
  "daily_rows None
     [\<lparr>total = 5000, checkout = 1000, errors = 10\<rparr>,
      \<lparr>total = 5000, checkout = 1000, errors = 13\<rparr>,
      \<lparr>total = 5000, checkout = 1000, errors = 13\<rparr>,
      \<lparr>total = 5000, checkout = 1000, errors = 7\<rparr>]
   = Inr [(Fin 1, []),
          (Fin (5854679515581645 / 4503599627370496), ''STABLE''),
          (Fin (5854679515581645 / 4503599627370496), ''STABLE''),
          (Fin (6305039478318695 / 9007199254740992), ''BETTER'')]"
  by (simp only: daily_rows.simps rate_10_of_1000 rate_13_of_1000 rate_7_of_1000 e_bind_Inr
        trend_of_None trend_1_to_13_tenths trend_13_tenths_again trend_13_to_7_tenths)

lemma daily_rows_6_7_of_200:
  "daily_rows None
     [\<lparr>total = 1000, checkout = 200, errors = 6\<rparr>,
      \<lparr>total = 1000, checkout = 200, errors = 7\<rparr>]
   = Inr [(Fin 3, []), (Fin (7881299347898369 / 2251799813685248), ''WORSE'')]"
  by (simp only: daily_rows.simps rate_6_of_200 rate_7_of_200 e_bind_Inr trend_of_None
        trend_3_to_7_halves)

lemma daily_rows_3_8_of_1000:
  "daily_rows None
     [\<lparr>total = 5000, checkout = 1000, errors = 3\<rparr>,
      \<lparr>total = 5000, checkout = 1000, errors = 8\<rparr>]
   = Inr [(Fin (5404319552844595 / 18014398509481984), []),
          (Fin (3602879701896397 / 4503599627370496), ''STABLE'')]"
  by (simp only: daily_rows.simps rate_3_of_1000 rate_8_of_1000 e_bind_Inr trend_of_None
        trend_3_to_8_tenths)

subsection \<open>The claim\<close>

text \<open>
  Claim C6, as stated: a day whose error rate is within half a percentage point of the
  previous day's is stable, one above is worse, one below is better. The label the source
  gives is not this function of the two rates, whether the rate of a day is taken to be the
  exact quotient or the float the source computes.

  With 6 errors in 200 checkout requests on one day and 7 in 200 on the next, the rates
  are 3 and 3.5 percent: exactly half a point apart, within the deadband. The source
  computes \<open>7 / 200 * 100\<close> in double precision, which gives 3.5000000000000004, finds it
  above \<open>3.0 + 0.5\<close> and labels the second day worse.

  With 3 and then 8 errors in 1000 checkout requests, the source computes the doubles
  nearest to 0.3 and 0.8, which are more than one half apart; the sum \<open>0.3 + 0.5\<close> rounds
  up to the second of them, which therefore does not exceed it, and the second day is
  labelled stable.
\<close>

theorem trend_deadband_counterexample:
  "daily_rows None
     [\<lparr>total = 1000, checkout = 200, errors = 6\<rparr>,
      \<lparr>total = 1000, checkout = 200, errors = 7\<rparr>]
   = Inr [(Fin 3, []), (Fin (7881299347898369 / 2251799813685248), ''WORSE'')]
   \<and> exact_error_rate \<lparr>total = 1000, checkout = 200, errors = 6\<rparr> = 3
   \<and> exact_error_rate \<lparr>total = 1000, checkout = 200, errors = 7\<rparr> = 7 / 2
   \<and> deadband_label 3 (7 / 2) = ''STABLE''
   \<and> daily_rows None
        [\<lparr>total = 5000, checkout = 1000, errors = 3\<rparr>,
         \<lparr>total = 5000, checkout = 1000, errors = 8\<rparr>]
      = Inr [(Fin (5404319552844595 / 18014398509481984), []),
             (Fin (3602879701896397 / 4503599627370496), ''STABLE'')]
   \<and> deadband_label (5404319552844595 / 18014398509481984)
        (3602879701896397 / 4503599627370496) = ''WORSE''"
  using daily_rows_6_7_of_200 daily_rows_3_8_of_1000
  by (simp add: exact_error_rate_def deadband_label_def)

text \<open>
  Claim C6, as the code has it. The rate of a day is the double-precision value of
  \<open>errors / checkout * 100\<close>, or 0 for a day without checkout requests, and the label of a
  day after the first compares it with the previous day's: worse when it exceeds the
  rounded sum of the previous rate and 0.5, better when it is below the rounded
  difference, stable otherwise.

  For days whose errors are among their checkout requests, as they are after every run,
  the computed rate differs from the exact one by at most \<open>1 / 2 ^ 45\<close>, and the label is
  the one the half-point deadband gives on the exact rates whenever the distance of the
  two exact rates is not within \<open>1 / 2 ^ 40\<close> of one half. Days of 10, 13, 13 and 7
  errors in 1000 checkout requests each, that is rates of 1.0, 1.3, 1.3 and 0.7 percent,
  are labelled stable, stable, better from the second day on.
\<close>

theorem trend_labels_of_rounded_rates:
  "((\<forall>s \<in> set days. errors s \<le> checkout s) \<longrightarrow>
      (\<exists>rows. daily_rows None days = Inr rows \<and> length rows = length days
         \<and> (\<forall>i < length days.
               (\<exists>r. fst (rows ! i) = Fin r
                     \<and> \<bar>r - exact_error_rate (days ! i)\<bar> \<le> 1 / 2 ^ 45)
               \<and> snd (rows ! i)
                   = (if i = 0 then []
                      else trend_of (Some (fst (rows ! (i - 1)))) (fst (rows ! i)))
               \<and> (0 < i \<and> 1 / 2 ^ 40 < \<bar>\<bar>exact_error_rate (days ! i)
                                             - exact_error_rate (days ! (i - 1))\<bar> - 1 / 2\<bar>
                    \<longrightarrow> snd (rows ! i)
                          = deadband_label (exact_error_rate (days ! (i - 1)))
                              (exact_error_rate (days ! i))))))
   \<and> (analyze_logs ls = Inr st \<longrightarrow>
        (\<forall>s \<in> set (map (dd_get (daily_stats st) zero_stats) (stats_keys date_of st)).
           errors s \<le> checkout s))
   \<and> trend_of (Some prev) cur
       = (if pf_less (fl_add prev (Fin (1 / 2))) cur then ''WORSE''
          else if pf_less cur (fl_sub prev (Fin (1 / 2))) then ''BETTER''
          else ''STABLE'')
   \<and> trend_of None cur = []
   \<and> daily_rows None
        [\<lparr>total = 5000, checkout = 1000, errors = 10\<rparr>,
         \<lparr>total = 5000, checkout = 1000, errors = 13\<rparr>,
         \<lparr>total = 5000, checkout = 1000, errors = 13\<rparr>,
         \<lparr>total = 5000, checkout = 1000, errors = 7\<rparr>]
      = Inr [(Fin 1, []),
             (Fin (5854679515581645 / 4503599627370496), ''STABLE''),
             (Fin (5854679515581645 / 4503599627370496), ''STABLE''),
             (Fin (6305039478318695 / 9007199254740992), ''BETTER'')]"
proof -
  have a: "\<exists>rows. daily_rows None days = Inr rows \<and> length rows = length days
         \<and> (\<forall>i < length days.
               (\<exists>r. fst (rows ! i) = Fin r
                     \<and> \<bar>r - exact_error_rate (days ! i)\<bar> \<le> 1 / 2 ^ 45)
               \<and> snd (rows ! i)
                   = (if i = 0 then []
                      else trend_of (Some (fst (rows ! (i - 1)))) (fst (rows ! i)))
               \<and> (0 < i \<and> 1 / 2 ^ 40 < \<bar>\<bar>exact_error_rate (days ! i)
                                             - exact_error_rate (days ! (i - 1))\<bar> - 1 / 2\<bar>
                    \<longrightarrow> snd (rows ! i)
                          = deadband_label (exact_error_rate (days ! (i - 1)))
                              (exact_error_rate (days ! i))))"
    if le: "\<forall>s \<in> set days. errors s \<le> checkout s"
  proof -
    from daily_rows_rows [OF le, of None] obtain rows
      where rows: "daily_rows None days = Inr rows" "length rows = length days"
        and nth: "\<And>i. i < length days \<Longrightarrow>
                    daily_error_rate (days ! i) = Inr (fst (rows ! i))
                    \<and> snd (rows ! i)
                        = trend_of (if i = 0 then None else Some (fst (rows ! (i - 1))))
                            (fst (rows ! i))"
      by auto
    have rate: "\<exists>r. fst (rows ! i) = Fin r \<and> \<bar>r - exact_error_rate (days ! i)\<bar> \<le> 1 / 2 ^ 45
                    \<and> 0 \<le> r \<and> r \<le> 101"
      if "i < length days" for i
    proof -
      from that le have "errors (days ! i) \<le> checkout (days ! i)" by simp
      from daily_error_rate_bound [OF this] nth [OF that] show ?thesis by auto
    qed
    have label: "snd (rows ! i)
                   = (if i = 0 then []
                      else trend_of (Some (fst (rows ! (i - 1)))) (fst (rows ! i)))"
      if "i < length days" for i
      using nth [OF that] by (simp add: trend_of_None)
    have band: "snd (rows ! i)
                  = deadband_label (exact_error_rate (days ! (i - 1)))
                      (exact_error_rate (days ! i))"
      if i: "i < length days" "0 < i"
        and far: "1 / 2 ^ 40 < \<bar>\<bar>exact_error_rate (days ! i)
                                  - exact_error_rate (days ! (i - 1))\<bar> - 1 / 2\<bar>"
      for i
    proof -
      from i have j: "i - 1 < length days" by simp
      from rate [OF j] obtain p
        where p: "fst (rows ! (i - 1)) = Fin p" "0 \<le> p" "p \<le> 101"
          "\<bar>p - exact_error_rate (days ! (i - 1))\<bar> \<le> 1 / 2 ^ 45"
        by auto
      from rate [OF i(1)] obtain r
        where r: "fst (rows ! i) = Fin r" "\<bar>r - exact_error_rate (days ! i)\<bar> \<le> 1 / 2 ^ 45"
        by auto
      from label [OF i(1)] i(2)
      have "snd (rows ! i) = trend_of (Some (fst (rows ! (i - 1)))) (fst (rows ! i))"
        by simp
      then have "snd (rows ! i) = trend_of (Some (Fin p)) (Fin r)"
        by (simp only: p(1) r(1))
      also have "\<dots> = deadband_label (exact_error_rate (days ! (i - 1)))
                          (exact_error_rate (days ! i))"
        using p(2,3,4) r(2) far by (rule trend_of_bound)
      finally show ?thesis .
    qed
    from rows rate label band show ?thesis by blast
  qed
  have b: "\<forall>s \<in> set (map (dd_get (daily_stats st) zero_stats) (stats_keys date_of st)).
             errors s \<le> checkout s"
    if "analyze_logs ls = Inr st"
    using time_bucket_errors_le [OF that] by (simp add: daily_stats_def)
  have c: "trend_of (Some prev) cur
       = (if pf_less (fl_add prev (Fin (1 / 2))) cur then ''WORSE''
          else if pf_less cur (fl_sub prev (Fin (1 / 2))) then ''BETTER''
          else ''STABLE'')"
    by (simp add: trend_of_def)
  from a b c trend_of_None [of cur] daily_rows_10_13_13_7 show ?thesis by blast
qed

theorem trend_labels_of_rounded_rates_witness:
  "errors \<lparr>total = 1000, checkout = 100, errors = 2\<rparr>
     \<le> checkout \<lparr>total = 1000, checkout = 100, errors = 2\<rparr>
   \<and> errors \<lparr>total = 1000, checkout = 100, errors = 9\<rparr>
       \<le> checkout \<lparr>total = 1000, checkout = 100, errors = 9\<rparr>
   \<and> exact_error_rate \<lparr>total = 1000, checkout = 100, errors = 2\<rparr> = 2
   \<and> exact_error_rate \<lparr>total = 1000, checkout = 100, errors = 9\<rparr> = 9
   \<and> (1 / 2 ^ 40 :: rat) < \<bar>\<bar>9 - 2\<bar> - 1 / 2\<bar>
   \<and> (\<exists>rows. daily_rows None
                [\<lparr>total = 1000, checkout = 100, errors = 2\<rparr>,
                 \<lparr>total = 1000, checkout = 100, errors = 9\<rparr>] = Inr rows
             \<and> length rows = 2 \<and> snd (rows ! 0) = [] \<and> snd (rows ! 1) = ''WORSE'')
   \<and> (\<exists>st. analyze_logs [line_cart_200, line_payment_502] = Inr st
            \<and> list_all (\<lambda>s. errors s \<le> checkout s)
                 (map (dd_get (daily_stats st) zero_stats) (stats_keys date_of st)))"
proof -
  let ?d2 = "\<lparr>total = 1000, checkout = 100, errors = 2\<rparr>"
  let ?d9 = "\<lparr>total = 1000, checkout = 100, errors = 9\<rparr>"
  obtain st where st: "analyze_logs [line_cart_200, line_payment_502] = Inr st"
    using process_lines_total unfolding analyze_logs_def by blast
  note t = trend_labels_of_rounded_rates
             [where days = "[?d2, ?d9]" and ls = "[line_cart_200, line_payment_502]"
                and st = st and prev = "Fin 0" and cur = "Fin 0"]
  have e: "exact_error_rate ?d2 = 2" "exact_error_rate ?d9 = 9"
    by (simp_all add: exact_error_rate_def)
  have far: "(1 / 2 ^ 40 :: rat) < \<bar>\<bar>9 - 2\<bar> - 1 / 2\<bar>" by simp
  have le: "\<forall>s \<in> set [?d2, ?d9]. errors s \<le> checkout s" by simp
  with t obtain rows
    where rows: "daily_rows None [?d2, ?d9] = Inr rows" "length rows = length [?d2, ?d9]"
      and first: "\<forall>i < length [?d2, ?d9].
               snd (rows ! i)
                   = (if i = 0 then []
                      else trend_of (Some (fst (rows ! (i - 1)))) (fst (rows ! i)))"
      and band: "\<forall>i < length [?d2, ?d9].
               0 < i \<and> 1 / 2 ^ 40 < \<bar>\<bar>exact_error_rate ([?d2, ?d9] ! i)
                                          - exact_error_rate ([?d2, ?d9] ! (i - 1))\<bar> - 1 / 2\<bar>
               \<longrightarrow> snd (rows ! i)
                     = deadband_label (exact_error_rate ([?d2, ?d9] ! (i - 1)))
                         (exact_error_rate ([?d2, ?d9] ! i))"
    by blast
  from first [rule_format, of 0] have r0: "snd (rows ! 0) = []" by simp
  from band [rule_format, of 1] far have "snd (rows ! 1) = deadband_label 2 9"
    by (simp add: e)
  then have r1: "snd (rows ! 1) = ''WORSE''" by (simp add: deadband_label_def)
  from t st have "\<forall>s \<in> set (map (dd_get (daily_stats st) zero_stats) (stats_keys date_of st)).
                    errors s \<le> checkout s"
    by blast
  then have run: "list_all (\<lambda>s. errors s \<le> checkout s)
                    (map (dd_get (daily_stats st) zero_stats) (stats_keys date_of st))"
    by (simp only: list_all_iff)
  from rows r0 r1 st run e far show ?thesis by auto
qed

end
